theory Spec2Isabelle
  imports Main "HOL-Library.AList"
begin

section \<open>JavaScript values and the object heap\<close>

text \<open>
  The metadata of a file is a JavaScript object (\<open>Record<string, any>\<close>), and
  \<open>updatePropertyInMetadataFileCache\<close> compares values with \<open>===\<close> and writes with
  \<open>parent.value[child.key] = value\<close>. Both depend on object identity, so objects live
  in a heap and a value is a scalar or a reference into it.

  \<^item> \<open>JNum\<close> stands for the numbers other than NaN; \<open>JNaN\<close> is kept apart because
    \<open>===\<close> treats it specially.
  \<^item> An object is the list of its own properties in insertion order. An array is an
    object whose keys are its indices. The prototype chain is not modelled.
  \<^item> The heap is the list of all objects allocated so far; an address is an index into
    it, and allocation appends.
\<close>

type_synonym addr = nat

datatype jsval =
    JUndefined
  | JNull
  | JBool bool
  | JNum int
  | JNaN
  | JStr string
  | JRef addr

type_synonym jsobj = "(string \<times> jsval) list"

type_synonym jsheap = "jsobj list"

text \<open>\<open>a === b\<close>: scalars by value, NaN equal to nothing, objects by reference.\<close>

definition strictEquals :: "jsval \<Rightarrow> jsval \<Rightarrow> bool" where
  "strictEquals a b = (a = b \<and> a \<noteq> JNaN)"

text \<open>\<open>o[k]\<close> read: the own property \<open>k\<close> of the object \<open>o\<close> refers to, \<open>undefined\<close>
  when the object has no such property or \<open>o\<close> is not an object.\<close>

definition getProp :: "jsheap \<Rightarrow> jsval \<Rightarrow> string \<Rightarrow> jsval" where
  "getProp h v k =
     (case v of
        JRef a \<Rightarrow>
          (if a < length h
           then (case map_of (h ! a) k of Some x \<Rightarrow> x | None \<Rightarrow> JUndefined)
           else JUndefined)
      | _ \<Rightarrow> JUndefined)"

text \<open>\<open>o[k] = v\<close> write (line 135): an existing property keeps its place, a new one is
  appended. Assigning a property of \<open>null\<close> or, in strict code, of a scalar raises a
  TypeError, which is \<open>None\<close> here.\<close>

definition setProp :: "jsheap \<Rightarrow> jsval \<Rightarrow> string \<Rightarrow> jsval \<Rightarrow> jsheap option" where
  "setProp h obj k v =
     (case obj of
        JRef a \<Rightarrow> (if a < length h then Some (h[a := AList.update k v (h ! a)]) else None)
      | _ \<Rightarrow> None)"

text \<open>\<open>Object.assign({}, src)\<close> followed by \<open>delete metadata.position\<close> (lines 152-153):
  the own properties of \<open>src\<close> without \<open>position\<close>, for a new object. \<open>cache.frontmatter\<close>
  is an object or \<open>undefined\<close>; \<open>Object.assign\<close> copies nothing from \<open>undefined\<close>.\<close>

definition copyWithoutPosition :: "jsheap \<Rightarrow> jsval \<Rightarrow> jsobj" where
  "copyWithoutPosition h src =
     (case src of
        JRef a \<Rightarrow> (if a < length h then AList.delete ''position'' (h ! a) else [])
      | _ \<Rightarrow> [])"

section \<open>Path utilities\<close>

text \<open>
  Modelled from the spec: \<open>traverseObjectByPath\<close> of the library
  \<open>@opd-libs/opd-utils-lib\<close>, which is not under src/. The spec's \<open>get(data, path)\<close>
  "traverses segment by segment"; the manager hands its result to the listeners as a
  value and compares it with \<open>undefined\<close> (line 126), so a segment that does not exist
  yields \<open>undefined\<close>.
\<close>

fun traverseObjectByPath :: "string list \<Rightarrow> jsheap \<Rightarrow> jsval \<Rightarrow> jsval" where
  "traverseObjectByPath [] h o' = o'"
| "traverseObjectByPath (p # ps) h o' = traverseObjectByPath ps h (getProp h o' p)"

text \<open>
  Modelled from the spec: \<open>traverseObjectToParentByPath\<close> of \<open>./utils/Utils\<close>, which is
  not under src/. The spec's \<open>locateParent(data, path)\<close> gives the parent node, whether
  it exists and the final key; the manager reads \<open>parent.value\<close> (\<open>undefined\<close> when the
  parent does not exist), \<open>child.key\<close> and \<open>child.value\<close> (lines 124-135). The result is
  the triple (parent.value, child.key, child.value). The spec's paths are non-empty.
\<close>

definition traverseObjectToParentByPath ::
    "string list \<Rightarrow> jsheap \<Rightarrow> jsval \<Rightarrow> jsval \<times> string \<times> jsval" where
  "traverseObjectToParentByPath pathParts h o' =
     (let parent = traverseObjectByPath (butlast pathParts) h o';
          key = (if pathParts = [] then [] else last pathParts)
      in (parent, key, getProp h parent key))"

text \<open>
  Modelled from the spec: \<open>arrayEquals\<close> of \<open>./utils/Utils\<close>, which is not under src/.
  The spec's \<open>notify\<close> reaches the "listeners whose path equals it": two paths are equal
  when they have the same segments in the same order.
\<close>

definition arrayEquals :: "string list \<Rightarrow> string list \<Rightarrow> bool" where
  "arrayEquals xs ys = (xs = ys)"

text \<open>The objects a traversal reads a property from, in order: the root, then the value
  of each segment but the last.\<close>

fun visited :: "string list \<Rightarrow> jsheap \<Rightarrow> jsval \<Rightarrow> jsval list" where
  "visited [] h o' = []"
| "visited (p # ps) h o' = o' # visited ps h (getProp h o' p)"

section \<open>The metadata manager\<close>

text \<open>A callback is a closure of the consumer; the model knows it by a name and records
  each call of it.\<close>

type_synonym callback = nat

record listener =
  onCacheUpdate :: callback
  metadataPath :: "string list"
  uuid :: string

text \<open>\<open>MetadataFileCache\<close> (lines 9-19). Of the \<open>TFile\<close> the manager reads only the
  path, so \<open>filePath\<close> is \<open>file.path\<close>. \<open>metadata\<close> is a reference to the metadata object.\<close>

record MetadataFileCache =
  filePath :: string
  metadata :: jsval
  listeners :: "listener list"
  cyclesSinceLastUpdate :: nat
  changed :: bool

text \<open>
  The state of the manager and of what it has set in motion.
  \<^item> \<open>cache\<close> is \<open>this.cache\<close>: the entry objects in the table, by address.
  \<^item> \<open>entries\<close> is the store of all \<open>MetadataFileCache\<close> objects ever created; an entry
    removed from \<open>cache\<close> stays here, as the closure of its load still holds it.
  \<^item> \<open>heap\<close> holds the JavaScript objects.
  \<^item> \<open>calls\<close> is the trace of the \<open>onCacheUpdate\<close> calls made so far, oldest first.
  \<^item> \<open>loads\<close> are the \<open>cachedRead\<close> promises not yet settled, each with the entry its
    continuation will fill (lines 53-57).
  \<^item> \<open>writes\<close> are the \<open>setFrontmatterOfTFile\<close> calls not yet settled, each with the
    file path and the metadata it was given (line 98).
  A callback is taken to return normally and not to call back into the manager.
\<close>

record state =
  cache :: "addr list"
  entries :: "MetadataFileCache list"
  heap :: jsheap
  calls :: "(callback \<times> jsval) list"
  loads :: "addr list"
  writes :: "(string \<times> jsval) list"

definition updateCycleThreshold :: nat where
  "updateCycleThreshold = 5"

text \<open>The constructor (lines 27-35): an empty table, in a heap that holds the objects
  of the rest of the program.\<close>

definition newMetadataManager :: "jsheap \<Rightarrow> state" where
  "newMetadataManager h =
     \<lparr>cache = [], entries = [], heap = h, calls = [], loads = [], writes = []\<rparr>"

definition entryHasFile :: "state \<Rightarrow> string \<Rightarrow> addr \<Rightarrow> bool" where
  "entryHasFile s f a = (a < length (entries s) \<and> filePath (entries s ! a) = f)"

text \<open>\<open>getCacheForFile\<close> (lines 79-81): the first entry of the table with that path.\<close>

definition getCacheForFile :: "state \<Rightarrow> string \<Rightarrow> addr option" where
  "getCacheForFile s f = find (entryHasFile s f) (cache s)"

text \<open>\<open>exceptUuid && exceptUuid === listener.uuid\<close> (line 171): an absent or empty
  \<open>exceptUuid\<close> is falsy.\<close>

definition isExcepted :: "string option \<Rightarrow> listener \<Rightarrow> bool" where
  "isExcepted exceptUuid l =
     (case exceptUuid of None \<Rightarrow> False | Some u \<Rightarrow> u \<noteq> [] \<and> u = uuid l)"

text \<open>\<open>notifyListeners\<close> (lines 164-185): the calls it makes, in order.\<close>

definition notifyListeners ::
    "jsheap \<Rightarrow> MetadataFileCache \<Rightarrow> string list option \<Rightarrow> string option
      \<Rightarrow> (callback \<times> jsval) list" where
  "notifyListeners h fileCache path exceptUuid =
     (let val = (case path of
                   Some p \<Rightarrow> traverseObjectByPath p h (metadata fileCache)
                 | None \<Rightarrow> JUndefined)
      in concat (map (\<lambda>l.
           if isExcepted exceptUuid l then []
           else (case path of
                   Some p \<Rightarrow>
                     (if arrayEquals p (metadataPath l) then [(onCacheUpdate l, val)] else [])
                 | None \<Rightarrow>
                     [(onCacheUpdate l,
                       traverseObjectByPath (metadataPath l) h (metadata fileCache))]))
         (listeners fileCache)))"

text \<open>\<open>register\<close> (lines 37-62) returns the entry and the new state. A new entry gets a
  new empty object as metadata and starts one load.\<close>

definition register ::
    "string \<Rightarrow> callback \<Rightarrow> string list \<Rightarrow> string \<Rightarrow> state \<Rightarrow> addr \<times> state" where
  "register f cb path u s =
     (let l = \<lparr>onCacheUpdate = cb, metadataPath = path, uuid = u\<rparr>
      in case getCacheForFile s f of
           Some a \<Rightarrow>
             (a, s\<lparr>entries := (entries s)
                     [a := (entries s ! a)\<lparr>listeners := listeners (entries s ! a) @ [l]\<rparr>]\<rparr>)
         | None \<Rightarrow>
             (let a = length (entries s);
                  c = \<lparr>filePath = f, metadata = JRef (length (heap s)), listeners = [l],
                       cyclesSinceLastUpdate = 0, changed = False\<rparr>
              in (a, s\<lparr>heap := heap s @ [[]],
                       entries := entries s @ [c],
                       loads := loads s @ [a],
                       cache := cache s @ [a]\<rparr>)))"

text \<open>The continuation of the load (lines 54-56), run when the \<open>i\<close>-th pending
  \<open>cachedRead\<close> resolves. \<open>md\<close> is what \<open>getMetaDataFromFileContent\<close> returned for the
  content; \<open>?? {}\<close> replaces \<open>undefined\<close> and \<open>null\<close> by a new empty object.\<close>

definition cachedReadResolved :: "nat \<Rightarrow> jsval \<Rightarrow> state \<Rightarrow> state" where
  "cachedReadResolved i md s =
     (if i < length (loads s) \<and> loads s ! i < length (entries s) then
        (let a = loads s ! i;
             fresh = (md = JUndefined \<or> md = JNull);
             h = (if fresh then heap s @ [[]] else heap s);
             c = (entries s ! a)\<lparr>metadata := (if fresh then JRef (length (heap s)) else md)\<rparr>
         in s\<lparr>heap := h,
              entries := (entries s)[a := c],
              calls := calls s @ notifyListeners h c None None,
              loads := take i (loads s) @ drop (Suc i) (loads s)\<rparr>)
      else s)"

text \<open>The \<open>i\<close>-th pending \<open>cachedRead\<close> rejects: \<open>then\<close> has no rejection handler and
  there is no \<open>catch\<close>, so no code of the manager runs.\<close>

definition cachedReadRejected :: "nat \<Rightarrow> state \<Rightarrow> state" where
  "cachedReadRejected i s = s\<lparr>loads := take i (loads s) @ drop (Suc i) (loads s)\<rparr>"

text \<open>\<open>unregister\<close> (lines 64-77).\<close>

definition unregister :: "string \<Rightarrow> string \<Rightarrow> state \<Rightarrow> state" where
  "unregister f u s =
     (case getCacheForFile s f of
        None \<Rightarrow> s
      | Some a \<Rightarrow>
          (let ls = filter (\<lambda>x. uuid x \<noteq> u) (listeners (entries s ! a));
               s1 = s\<lparr>entries := (entries s)[a := (entries s ! a)\<lparr>listeners := ls\<rparr>]\<rparr>
           in if length ls = 0
              then s1\<lparr>cache := filter (\<lambda>x. \<not> entryHasFile s1 f x) (cache s1)\<rparr>
              else s1))"

text \<open>\<open>updateFrontmatter\<close> (lines 94-99) up to its \<open>await\<close>: the flag is cleared, then
  the write is started.\<close>

definition updateFrontmatter :: "addr \<Rightarrow> state \<Rightarrow> state" where
  "updateFrontmatter a s =
     (let s1 = s\<lparr>entries := (entries s)[a := (entries s ! a)\<lparr>changed := False\<rparr>]\<rparr>
      in s1\<lparr>writes := writes s1 @ [(filePath (entries s1 ! a), metadata (entries s1 ! a))]\<rparr>)"

text \<open>The \<open>i\<close>-th pending write settles, resolved (\<open>ok\<close>) or rejected. Nothing follows
  the \<open>await\<close> in \<open>updateFrontmatter\<close> and \<open>update\<close> drops the promise, so no code of the
  manager runs in either case.\<close>

definition writeSettled :: "nat \<Rightarrow> bool \<Rightarrow> state \<Rightarrow> state" where
  "writeSettled i ok s = s\<lparr>writes := take i (writes s) @ drop (Suc i) (writes s)\<rparr>"

text \<open>The body of the loop of \<open>update\<close> (lines 87-90) for one entry of the table.\<close>

definition updateEntry :: "addr \<Rightarrow> state \<Rightarrow> state" where
  "updateEntry a s =
     (if a < length (entries s) then
        (let s1 = (if changed (entries s ! a) then updateFrontmatter a s else s)
         in s1\<lparr>entries := (entries s1)
                 [a := (entries s1 ! a)
                    \<lparr>cyclesSinceLastUpdate := cyclesSinceLastUpdate (entries s1 ! a) + 1\<rparr>]\<rparr>)
      else s)"

fun updateLoop :: "addr list \<Rightarrow> state \<Rightarrow> state" where
  "updateLoop [] s = s"
| "updateLoop (a # as) s = updateLoop as (updateEntry a s)"

text \<open>\<open>update\<close> (lines 83-92), the periodic tick.\<close>

definition update :: "state \<Rightarrow> state" where
  "update s = updateLoop (cache s) s"

text \<open>\<open>updateMetadataFileCache\<close> (lines 101-113).\<close>

definition updateMetadataFileCache :: "jsval \<Rightarrow> string \<Rightarrow> string option \<Rightarrow> state \<Rightarrow> state" where
  "updateMetadataFileCache md f u s =
     (case getCacheForFile s f of
        None \<Rightarrow> s
      | Some a \<Rightarrow>
          (let c = (entries s ! a)\<lparr>metadata := md, cyclesSinceLastUpdate := 0\<rparr>
           in s\<lparr>entries := (entries s)[a := c],
                calls := calls s @ notifyListeners (heap s) c None u\<rparr>))"

text \<open>The error thrown at line 127 (\<open>The parent of ... does not exist in Object\<close>), which
  the spec calls \<open>MissingParentPath\<close>, and the TypeError of a failed property write.\<close>

datatype error = MissingParentPath "string list" | TypeError

text \<open>\<open>updatePropertyInMetadataFileCache\<close> (lines 115-140) returns the error thrown, if
  any, and the state it leaves.\<close>

definition updatePropertyInMetadataFileCache ::
    "jsval \<Rightarrow> string list \<Rightarrow> string \<Rightarrow> string option \<Rightarrow> state \<Rightarrow> error option \<times> state" where
  "updatePropertyInMetadataFileCache val pathParts f u s =
     (case getCacheForFile s f of
        None \<Rightarrow> (None, s)
      | Some a \<Rightarrow>
          (case traverseObjectToParentByPath pathParts (heap s) (metadata (entries s ! a)) of
             (parent, key, child) \<Rightarrow>
               if parent = JUndefined then (Some (MissingParentPath pathParts), s)
               else if strictEquals child val then (None, s)
               else
                 (case setProp (heap s) parent key val of
                    None \<Rightarrow> (Some TypeError, s)
                  | Some h \<Rightarrow>
                      (let c = (entries s ! a)\<lparr>cyclesSinceLastUpdate := 0, changed := True\<rparr>
                       in (None,
                           s\<lparr>heap := h,
                             entries := (entries s)[a := c],
                             calls := calls s @ notifyListeners h c (Some pathParts) u\<rparr>)))))"

text \<open>\<open>updateMetadataFileCacheOnFrontmatterUpdate\<close> (lines 142-162), called by the
  \<open>changed\<close> event of the application's metadata cache. \<open>frontmatter\<close> is
  \<open>cache.frontmatter\<close>; \<open>data\<close> is not read.\<close>

definition updateMetadataFileCacheOnFrontmatterUpdate ::
    "string \<Rightarrow> string \<Rightarrow> jsval \<Rightarrow> state \<Rightarrow> state" where
  "updateMetadataFileCacheOnFrontmatterUpdate f data frontmatter s =
     (case getCacheForFile s f of
        None \<Rightarrow> s
      | Some a \<Rightarrow>
          if cyclesSinceLastUpdate (entries s ! a) < updateCycleThreshold then s
          else
            (let h = heap s @ [copyWithoutPosition (heap s) frontmatter];
                 c = (entries s ! a)
                       \<lparr>metadata := JRef (length (heap s)),
                        cyclesSinceLastUpdate := 0,
                        changed := True\<rparr>
             in s\<lparr>heap := h,
                  entries := (entries s)[a := c],
                  calls := calls s @ notifyListeners h c None None\<rparr>))"

section \<open>Well-formed states, sequences of calls, and the spec's equality\<close>

text \<open>The table holds each entry object once, and every address in it is allocated.
  The constructor establishes this and every operation keeps it (section
  ``Well-formedness is kept'').\<close>

definition wellFormed :: "state \<Rightarrow> bool" where
  "wellFormed s = (distinct (cache s) \<and> (\<forall>a \<in> set (cache s). a < length (entries s)))"

text \<open>What one pass of the loop of \<open>update\<close> leaves of an entry, and the write it starts
  for a dirty one.\<close>

definition ticked :: "MetadataFileCache \<Rightarrow> MetadataFileCache" where
  "ticked c = c\<lparr>changed := False, cyclesSinceLastUpdate := cyclesSinceLastUpdate c + 1\<rparr>"

definition writeOf :: "state \<Rightarrow> addr \<Rightarrow> string \<times> jsval" where
  "writeOf s a = (filePath (entries s ! a), metadata (entries s ! a))"

text \<open>A sequence of \<open>register\<close> calls for one file, each with its callback, path and
  id: the entries returned and the final state.\<close>

fun registerAll ::
    "string \<Rightarrow> (callback \<times> string list \<times> string) list \<Rightarrow> state \<Rightarrow> addr list \<times> state" where
  "registerAll f [] s = ([], s)"
| "registerAll f ((cb, p, u) # rs) s =
     (case register f cb p u s of
        (a, s1) \<Rightarrow> (case registerAll f rs s1 of (as, s2) \<Rightarrow> (a # as, s2)))"

fun toListener :: "callback \<times> string list \<times> string \<Rightarrow> listener" where
  "toListener (cb, p, u) = \<lparr>onCacheUpdate = cb, metadataPath = p, uuid = u\<rparr>"

text \<open>
  The equality of the spec, in the spec's words: "deep structural equality over the
  Structured Value model (recursively compares mappings, sequences, and scalars)". It is
  not what the code computes (that is \<open>strictEquals\<close>). Objects can be cyclic, so the
  comparison descends at most \<open>n\<close> levels and compares what lies below by \<open>=\<close>: where it
  holds, the two values are deep-equal.
\<close>

primrec specDeepEqual :: "nat \<Rightarrow> jsheap \<Rightarrow> jsval \<Rightarrow> jsval \<Rightarrow> bool" where
  "specDeepEqual 0 h x y = (x = y)"
| "specDeepEqual (Suc n) h x y =
     (case (x, y) of
        (JRef a, JRef b) \<Rightarrow>
          a < length h \<and> b < length h \<and> map fst (h ! a) = map fst (h ! b) \<and>
          list_all2 (specDeepEqual n h) (map snd (h ! a)) (map snd (h ! b))
      | _ \<Rightarrow> x = y)"

section \<open>Example runs\<close>

text \<open>
  The end-to-end scenario of the spec. The heap at construction holds what the rest of
  the program provides: objects 0 and 1 are \<open>{a: {b: 1}}\<close>, which
  \<open>getMetaDataFromFileContent\<close> returns for the file \<open>F\<close>; objects 2 and 3 are the
  frontmatter \<open>{a: {b: 9}, position: 0}\<close> of a later external change.
\<close>

definition exampleHeap :: jsheap where
  "exampleHeap =
     [[(''a'', JRef 1)], [(''b'', JNum 1)],
      [(''a'', JRef 3), (''position'', JNum 0)], [(''b'', JNum 9)]]"

definition run0 :: state where
  "run0 = newMetadataManager exampleHeap"

text \<open>Listener \<open>L1\<close> (callback 1) registers on \<open>[a, b]\<close>; the load resolves.\<close>

definition run1 :: state where
  "run1 = snd (register ''F'' 1 [''a'', ''b''] ''L1'' run0)"

definition run2 :: state where
  "run2 = cachedReadResolved 0 (JRef 0) run1"

text \<open>\<open>L1\<close> writes 2; listener \<open>L2\<close> (callback 2) registers on the same path.\<close>

definition run3 :: state where
  "run3 = snd (updatePropertyInMetadataFileCache (JNum 2) [''a'', ''b''] ''F'' (Some ''L1'') run2)"

definition run4 :: state where
  "run4 = snd (register ''F'' 2 [''a'', ''b''] ''L2'' run3)"

text \<open>One tick, then four more, then the external change.\<close>

definition run5 :: state where
  "run5 = update run4"

definition run6 :: state where
  "run6 = update (update (update (update run5)))"

definition run7 :: state where
  "run7 = updateMetadataFileCacheOnFrontmatterUpdate ''F'' [] (JRef 2) run6"

text \<open>After the first tick, with its write still pending, \<open>L1\<close> writes 3.\<close>

definition secondWriteRun :: state where
  "secondWriteRun =
     snd (updatePropertyInMetadataFileCache (JNum 3) [''a'', ''b''] ''F'' (Some ''L1'') run5)"

text \<open>A file whose metadata is \<open>{tags: [x]}\<close> (objects 0 and 1), with two listeners on
  \<open>[tags]\<close>; object 2 is another list \<open>[x]\<close>, which a consumer passes as the new value.\<close>

definition tagsHeap :: jsheap where
  "tagsHeap = [[(''tags'', JRef 1)], [(''0'', JStr ''x'')], [(''0'', JStr ''x'')]]"

definition tagsRun :: state where
  "tagsRun =
     cachedReadResolved 0 (JRef 0)
       (snd (register ''F'' 2 [''tags''] ''L2''
         (snd (register ''F'' 1 [''tags''] ''L1'' (newMetadataManager tagsHeap)))))"

text \<open>A listener registered under the empty string as id.\<close>

definition emptyIdRun :: state where
  "emptyIdRun = snd (register ''F'' 1 [''a''] [] (newMetadataManager []))"

section \<open>Paths and notification\<close>

lemma getCacheForFile_SomeD:
  assumes "getCacheForFile s f = Some a"
  shows "a \<in> set (cache s)" and "a < length (entries s)" and "filePath (entries s ! a) = f"
  using assms unfolding getCacheForFile_def entryHasFile_def
  by (auto simp: find_Some_iff)

lemma traverseObjectByPath_snoc:
  "traverseObjectByPath (q @ [k]) h v = getProp h (traverseObjectByPath q h v) k"
  by (induction q arbitrary: v) simp_all

lemma getProp_update_other:
  "JRef a \<noteq> v \<Longrightarrow> getProp (h[a := ob]) v k = getProp h v k"
  by (cases v) (auto simp: getProp_def)

lemma traverse_update_unvisited:
  "JRef a \<notin> set (visited q h v) \<Longrightarrow>
     traverseObjectByPath q (h[a := ob]) v = traverseObjectByPath q h v"
  by (induction q arbitrary: v) (simp_all add: getProp_update_other)

lemma getProp_written:
  "a < length h \<Longrightarrow> getProp (h[a := AList.update k x (h ! a)]) (JRef a) k = x"
  by (simp add: getProp_def update_conv')

lemma traverse_after_write:
  assumes p: "pathParts \<noteq> []"
    and par: "traverseObjectByPath (butlast pathParts) h v = JRef a"
    and a: "a < length h"
    and nv: "JRef a \<notin> set (visited (butlast pathParts) h v)"
  shows "traverseObjectByPath pathParts (h[a := AList.update (last pathParts) x (h ! a)]) v = x"
proof -
  let ?h = "h[a := AList.update (last pathParts) x (h ! a)]"
  have "traverseObjectByPath pathParts ?h v
        = traverseObjectByPath (butlast pathParts @ [last pathParts]) ?h v"
    using p by simp
  also have "\<dots> = getProp ?h (traverseObjectByPath (butlast pathParts) ?h v) (last pathParts)"
    by (rule traverseObjectByPath_snoc)
  also have "traverseObjectByPath (butlast pathParts) ?h v = JRef a"
    using traverse_update_unvisited [OF nv] par by simp
  finally show ?thesis using a by (simp add: getProp_written)
qed

lemma concat_map_if:
  "concat (map (\<lambda>l. if P l then [g l] else []) ls) = map g (filter P ls)"
  by (induction ls) simp_all

lemma notifyListeners_path:
  "notifyListeners h c (Some p) u =
     map (\<lambda>l. (onCacheUpdate l, traverseObjectByPath p h (metadata c)))
       (filter (\<lambda>l. \<not> isExcepted u l \<and> metadataPath l = p) (listeners c))"
proof -
  have "notifyListeners h c (Some p) u =
      concat (map (\<lambda>l. if \<not> isExcepted u l \<and> metadataPath l = p
                        then [(onCacheUpdate l, traverseObjectByPath p h (metadata c))] else [])
        (listeners c))"
    unfolding notifyListeners_def arrayEquals_def Let_def
    by (auto intro!: arg_cong [where f = concat])
  then show ?thesis by (simp only: concat_map_if)
qed

lemma notifyListeners_all:
  "notifyListeners h c None None =
     map (\<lambda>l. (onCacheUpdate l, traverseObjectByPath (metadataPath l) h (metadata c)))
       (listeners c)"
  unfolding notifyListeners_def isExcepted_def Let_def
  by (induction "listeners c") (simp_all add: map_concat)

section \<open>The tick\<close>

lemma updateEntry_eq:
  assumes "a < length (entries s)"
  shows "updateEntry a s =
     s\<lparr>entries := (entries s)[a := ticked (entries s ! a)],
       writes := writes s @ (if changed (entries s ! a) then [writeOf s a] else [])\<rparr>"
proof (cases "changed (entries s ! a)")
  case True
  then show ?thesis
    using assms by (simp add: updateEntry_def updateFrontmatter_def ticked_def writeOf_def Let_def)
next
  case False
  then have "ticked (entries s ! a) =
      (entries s ! a)\<lparr>cyclesSinceLastUpdate := cyclesSinceLastUpdate (entries s ! a) + 1\<rparr>"
    by (cases "entries s ! a") (simp add: ticked_def)
  then show ?thesis
    using assms False by (simp add: updateEntry_def)
qed

lemma updateLoop_frame:
  "cache (updateLoop as s) = cache s \<and> heap (updateLoop as s) = heap s \<and>
   calls (updateLoop as s) = calls s \<and> loads (updateLoop as s) = loads s \<and>
   length (entries (updateLoop as s)) = length (entries s)"
proof (induction as arbitrary: s)
  case Nil
  show ?case by simp
next
  case (Cons a as)
  show ?case
    by (cases "a < length (entries s)") (simp_all add: Cons.IH updateEntry_eq, simp add: updateEntry_def)
qed

lemma updateLoop_other:
  "a \<notin> set as \<Longrightarrow> entries (updateLoop as s) ! a = entries s ! a"
proof (induction as arbitrary: s)
  case Nil
  show ?case by simp
next
  case (Cons b as)
  then have "entries (updateLoop as (updateEntry b s)) ! a = entries (updateEntry b s) ! a"
    by simp
  also have "\<dots> = entries s ! a"
    using Cons.prems by (cases "b < length (entries s)") (simp_all add: updateEntry_eq, simp add: updateEntry_def)
  finally show ?case by simp
qed

lemma updateLoop_entry:
  "distinct as \<Longrightarrow> \<forall>x \<in> set as. x < length (entries s) \<Longrightarrow> a \<in> set as \<Longrightarrow>
     entries (updateLoop as s) ! a = ticked (entries s ! a)"
proof (induction as arbitrary: s)
  case Nil
  then show ?case by simp
next
  case (Cons b as)
  have b: "b < length (entries s)" using Cons.prems by simp
  show ?case
  proof (cases "a = b")
    case True
    then have "a \<notin> set as" using Cons.prems by simp
    then have "entries (updateLoop as (updateEntry b s)) ! a = entries (updateEntry b s) ! a"
      by (rule updateLoop_other)
    then show ?thesis using True b by (simp add: updateEntry_eq)
  next
    case False
    then have "entries (updateLoop as (updateEntry b s)) ! a = ticked (entries (updateEntry b s) ! a)"
      using Cons.prems b by (intro Cons.IH) (simp_all add: updateEntry_eq)
    then show ?thesis using False b by (simp add: updateEntry_eq)
  qed
qed

lemma updateLoop_writes:
  "distinct as \<Longrightarrow> \<forall>x \<in> set as. x < length (entries s) \<Longrightarrow>
     writes (updateLoop as s) =
       writes s @ map (writeOf s) (filter (\<lambda>a. changed (entries s ! a)) as)"
proof (induction as arbitrary: s)
  case Nil
  then show ?case by simp
next
  case (Cons b as)
  let ?s = "updateEntry b s"
  have b: "b < length (entries s)" and nb: "b \<notin> set as" using Cons.prems by simp_all
  have same: "\<And>x. x \<in> set as \<Longrightarrow> entries ?s ! x = entries s ! x"
    using nb b by (auto simp: updateEntry_eq nth_list_update)
  have "writes (updateLoop as ?s) =
          writes ?s @ map (writeOf ?s) (filter (\<lambda>a. changed (entries ?s ! a)) as)"
    using Cons.prems b by (intro Cons.IH) (simp_all add: updateEntry_eq)
  also have "filter (\<lambda>a. changed (entries ?s ! a)) as = filter (\<lambda>a. changed (entries s ! a)) as"
    by (rule filter_cong) (simp_all add: same)
  also have "map (writeOf ?s) (filter (\<lambda>a. changed (entries s ! a)) as)
             = map (writeOf s) (filter (\<lambda>a. changed (entries s ! a)) as)"
    by (rule map_cong) (simp_all add: same writeOf_def)
  finally show ?case using b by (simp add: updateEntry_eq)
qed

lemma update_frame:
  "cache (update s) = cache s" "heap (update s) = heap s" "calls (update s) = calls s"
  "loads (update s) = loads s" "length (entries (update s)) = length (entries s)"
  by (simp_all add: update_def updateLoop_frame)

lemma update_entry:
  "wellFormed s \<Longrightarrow> a \<in> set (cache s) \<Longrightarrow> entries (update s) ! a = ticked (entries s ! a)"
  by (simp add: update_def wellFormed_def updateLoop_entry)

lemma update_other:
  "a \<notin> set (cache s) \<Longrightarrow> entries (update s) ! a = entries s ! a"
  by (simp add: update_def updateLoop_other)

lemma update_writes:
  "wellFormed s \<Longrightarrow>
     writes (update s) = writes s @ map (writeOf s) (filter (\<lambda>a. changed (entries s ! a)) (cache s))"
  by (simp add: update_def wellFormed_def updateLoop_writes)

lemma wellFormed_update: "wellFormed s \<Longrightarrow> wellFormed (update s)"
  by (simp add: wellFormed_def update_frame)

lemma getCacheForFile_cong:
  "cache s' = cache s \<Longrightarrow> length (entries s') = length (entries s) \<Longrightarrow>
   (\<And>a. a < length (entries s) \<Longrightarrow> filePath (entries s' ! a) = filePath (entries s ! a)) \<Longrightarrow>
   getCacheForFile s' f = getCacheForFile s f"
proof -
  assume c: "cache s' = cache s" and l: "length (entries s') = length (entries s)"
    and f: "\<And>a. a < length (entries s) \<Longrightarrow> filePath (entries s' ! a) = filePath (entries s ! a)"
  have "entryHasFile s' f = entryHasFile s f"
    using l f by (auto simp: fun_eq_iff entryHasFile_def)
  then show ?thesis by (simp add: getCacheForFile_def c)
qed

lemma update_filePath:
  "wellFormed s \<Longrightarrow> a < length (entries s) \<Longrightarrow> filePath (entries (update s) ! a) = filePath (entries s ! a)"
  by (cases "a \<in> set (cache s)") (simp_all add: update_entry update_other ticked_def)

lemma getCacheForFile_update:
  "wellFormed s \<Longrightarrow> getCacheForFile (update s) f = getCacheForFile s f"
  by (rule getCacheForFile_cong) (simp_all add: update_frame update_filePath)

lemma ticks_wellFormed: "wellFormed s \<Longrightarrow> wellFormed ((update ^^ k) s)"
  by (induction k) (simp_all add: wellFormed_update)

lemma ticks_frame:
  "cache ((update ^^ k) s) = cache s" "heap ((update ^^ k) s) = heap s"
  "calls ((update ^^ k) s) = calls s" "loads ((update ^^ k) s) = loads s"
  "length (entries ((update ^^ k) s)) = length (entries s)"
  by (induction k) (simp_all add: update_frame)

lemma ticks_getCacheForFile:
  "wellFormed s \<Longrightarrow> getCacheForFile ((update ^^ k) s) f = getCacheForFile s f"
  by (induction k) (simp_all add: getCacheForFile_update ticks_wellFormed)

lemma ticks_cycles:
  "wellFormed s \<Longrightarrow> a \<in> set (cache s) \<Longrightarrow>
     cyclesSinceLastUpdate (entries ((update ^^ k) s) ! a) = cyclesSinceLastUpdate (entries s ! a) + k"
  by (induction k) (simp_all add: update_entry ticks_wellFormed ticks_frame ticked_def)

section \<open>The operations on one entry\<close>

lemma filePath_list_update:
  "filePath c = filePath (es ! a) \<Longrightarrow> filePath (es[a := c] ! x) = filePath (es ! x)"
  by (cases "a < length es") (simp_all add: nth_list_update list_update_beyond)

lemma find_snoc:
  "find P (xs @ [y]) = (case find P xs of Some x \<Rightarrow> Some x | None \<Rightarrow> if P y then Some y else None)"
  by (induction xs) simp_all

lemma external_discarded:
  "getCacheForFile s f = Some a \<Longrightarrow> cyclesSinceLastUpdate (entries s ! a) < 5 \<Longrightarrow>
     updateMetadataFileCacheOnFrontmatterUpdate f d fm s = s"
  by (simp add: updateMetadataFileCacheOnFrontmatterUpdate_def updateCycleThreshold_def)

lemma external_applied:
  assumes "getCacheForFile s f = Some a" and "5 \<le> cyclesSinceLastUpdate (entries s ! a)"
  shows "updateMetadataFileCacheOnFrontmatterUpdate f d fm s =
     s\<lparr>heap := heap s @ [copyWithoutPosition (heap s) fm],
       entries := (entries s)
         [a := (entries s ! a)
            \<lparr>metadata := JRef (length (heap s)), cyclesSinceLastUpdate := 0, changed := True\<rparr>],
       calls := calls s @
         map (\<lambda>l. (onCacheUpdate l,
                 traverseObjectByPath (metadataPath l)
                   (heap s @ [copyWithoutPosition (heap s) fm]) (JRef (length (heap s)))))
           (listeners (entries s ! a))\<rparr>"
  using assms
  by (simp add: updateMetadataFileCacheOnFrontmatterUpdate_def updateCycleThreshold_def
      notifyListeners_all Let_def)

lemma updateProperty_no_entry:
  "getCacheForFile s f = None \<Longrightarrow> updatePropertyInMetadataFileCache v p f u s = (None, s)"
  by (simp add: updatePropertyInMetadataFileCache_def)

lemma updateProperty_missing_parent:
  "getCacheForFile s f = Some a \<Longrightarrow>
   fst (traverseObjectToParentByPath p (heap s) (metadata (entries s ! a))) = JUndefined \<Longrightarrow>
     updatePropertyInMetadataFileCache v p f u s = (Some (MissingParentPath p), s)"
  by (cases "traverseObjectToParentByPath p (heap s) (metadata (entries s ! a))")
     (simp add: updatePropertyInMetadataFileCache_def)

lemma updateProperty_redundant:
  "getCacheForFile s f = Some a \<Longrightarrow>
   traverseObjectToParentByPath p (heap s) (metadata (entries s ! a)) = (parent, key, child) \<Longrightarrow>
   parent \<noteq> JUndefined \<Longrightarrow> strictEquals child v \<Longrightarrow>
     updatePropertyInMetadataFileCache v p f u s = (None, s)"
  by (simp add: updatePropertyInMetadataFileCache_def)

lemma updateProperty_effective:
  assumes "getCacheForFile s f = Some a"
    and "p \<noteq> []"
    and "traverseObjectByPath (butlast p) (heap s) (metadata (entries s ! a)) = JRef b"
    and "b < length (heap s)"
    and "\<not> strictEquals (getProp (heap s) (JRef b) (last p)) v"
  shows "updatePropertyInMetadataFileCache v p f u s =
     (None,
      s\<lparr>heap := (heap s)[b := AList.update (last p) v (heap s ! b)],
        entries := (entries s)
          [a := (entries s ! a)\<lparr>cyclesSinceLastUpdate := 0, changed := True\<rparr>],
        calls := calls s @
          map (\<lambda>l. (onCacheUpdate l,
                  traverseObjectByPath p ((heap s)[b := AList.update (last p) v (heap s ! b)])
                    (metadata (entries s ! a))))
            (filter (\<lambda>l. \<not> isExcepted u l \<and> metadataPath l = p) (listeners (entries s ! a)))\<rparr>)"
  using assms
  by (simp add: updatePropertyInMetadataFileCache_def traverseObjectToParentByPath_def
      setProp_def notifyListeners_path Let_def)

lemma isExcepted_iff: "u \<noteq> Some [] \<Longrightarrow> isExcepted u l \<longleftrightarrow> u = Some (uuid l)"
  by (cases u) (auto simp: isExcepted_def)

lemma register_existing:
  "getCacheForFile s f = Some a \<Longrightarrow>
     register f cb p u s =
       (a, s\<lparr>entries := (entries s)
              [a := (entries s ! a)
                 \<lparr>listeners := listeners (entries s ! a) @
                    [\<lparr>onCacheUpdate = cb, metadataPath = p, uuid = u\<rparr>]\<rparr>]\<rparr>)"
  by (simp add: register_def)

lemma register_new:
  "getCacheForFile s f = None \<Longrightarrow>
     register f cb p u s =
       (length (entries s),
        s\<lparr>heap := heap s @ [[]],
          entries := entries s @
            [\<lparr>filePath = f, metadata = JRef (length (heap s)),
              listeners = [\<lparr>onCacheUpdate = cb, metadataPath = p, uuid = u\<rparr>],
              cyclesSinceLastUpdate = 0, changed = False\<rparr>],
          loads := loads s @ [length (entries s)],
          cache := cache s @ [length (entries s)]\<rparr>)"
  by (simp add: register_def Let_def)

lemma getCacheForFile_after_new:
  assumes wf: "wellFormed s" and none: "getCacheForFile s f = None"
  shows "getCacheForFile (snd (register f cb p u s)) f = Some (length (entries s))"
proof -
  let ?s = "snd (register f cb p u s)"
  have old: "\<not> entryHasFile ?s f x" if "x \<in> set (cache s)" for x
  proof -
    have "x < length (entries s)" using wf that by (simp add: wellFormed_def)
    moreover have "\<not> entryHasFile s f x"
      using none that by (simp add: getCacheForFile_def find_None_iff)
    ultimately show ?thesis
      by (simp add: register_new [OF none] entryHasFile_def nth_append)
  qed
  have new: "entryHasFile ?s f (length (entries s))"
    by (simp add: register_new [OF none] entryHasFile_def)
  have "find (entryHasFile ?s f) (cache s @ [length (entries s)]) = Some (length (entries s))"
    using old new by (simp add: find_snoc find_None_iff [THEN iffD2])
  then show ?thesis
    by (simp add: getCacheForFile_def register_new [OF none])
qed

lemma getCacheForFile_after_existing:
  assumes "getCacheForFile s f = Some a"
  shows "getCacheForFile (snd (register f cb p u s)) f = Some a"
proof -
  have "getCacheForFile (snd (register f cb p u s)) f = getCacheForFile s f"
    by (rule getCacheForFile_cong)
       (simp_all add: register_existing [OF assms] filePath_list_update)
  then show ?thesis using assms by simp
qed

lemma unregister_no_entry: "getCacheForFile s f = None \<Longrightarrow> unregister f u s = s"
  by (simp add: unregister_def)

lemma unregister_last:
  assumes "getCacheForFile s f = Some a" and "listeners (entries s ! a) = [l]" and "uuid l = u"
  shows "unregister f u s =
     s\<lparr>entries := (entries s)[a := (entries s ! a)\<lparr>listeners := []\<rparr>],
       cache := filter (\<lambda>x. \<not> entryHasFile s f x) (cache s)\<rparr>"
proof -
  have "entryHasFile (s\<lparr>entries := (entries s)[a := (entries s ! a)\<lparr>listeners := []\<rparr>]\<rparr>) f
        = entryHasFile s f"
    by (simp add: fun_eq_iff entryHasFile_def filePath_list_update)
  then show ?thesis using assms by (simp add: unregister_def)
qed

lemma getCacheForFile_after_unregister_last:
  assumes "getCacheForFile s f = Some a" and "listeners (entries s ! a) = [l]" and "uuid l = u"
  shows "getCacheForFile (unregister f u s) f = None"
proof -
  have "entryHasFile (unregister f u s) f = entryHasFile s f"
    by (simp add: fun_eq_iff entryHasFile_def filePath_list_update unregister_last [OF assms])
  then show ?thesis
    by (simp add: getCacheForFile_def find_None_iff unregister_last [OF assms])
qed

lemma registerAll_existing:
  "getCacheForFile s f = Some a \<Longrightarrow>
     registerAll f rs s =
       (replicate (length rs) a,
        s\<lparr>entries := (entries s)
           [a := (entries s ! a)\<lparr>listeners := listeners (entries s ! a) @ map toListener rs\<rparr>]\<rparr>)"
proof (induction rs arbitrary: s)
  case Nil
  have "(entries s ! a)\<lparr>listeners := listeners (entries s ! a)\<rparr> = entries s ! a"
    by simp
  then show ?case by simp
next
  case (Cons r rs)
  obtain cb p u where r: "r = (cb, p, u)" by (cases r)
  let ?s1 = "snd (register f cb p u s)"
  have a: "a < length (entries s)" using Cons.prems by (rule getCacheForFile_SomeD)
  have s1: "register f cb p u s = (a, ?s1)"
    by (simp add: register_existing [OF Cons.prems])
  have "getCacheForFile ?s1 f = Some a"
    using Cons.prems by (rule getCacheForFile_after_existing)
  then have "registerAll f rs ?s1 =
       (replicate (length rs) a,
        ?s1\<lparr>entries := (entries ?s1)
           [a := (entries ?s1 ! a)\<lparr>listeners := listeners (entries ?s1 ! a) @ map toListener rs\<rparr>]\<rparr>)"
    by (rule Cons.IH)
  then show ?case
    using a by (simp add: r s1 register_existing [OF Cons.prems])
qed

lemma registerAll_new:
  assumes wf: "wellFormed s" and none: "getCacheForFile s f = None"
  shows "registerAll f ((cb, p, u) # rs) s =
       (replicate (Suc (length rs)) (length (entries s)),
        s\<lparr>heap := heap s @ [[]],
          entries := entries s @
            [\<lparr>filePath = f, metadata = JRef (length (heap s)),
              listeners = map toListener ((cb, p, u) # rs),
              cyclesSinceLastUpdate = 0, changed = False\<rparr>],
          loads := loads s @ [length (entries s)],
          cache := cache s @ [length (entries s)]\<rparr>)"
proof -
  let ?s1 = "snd (register f cb p u s)"
  have s1: "register f cb p u s = (length (entries s), ?s1)"
    by (simp add: register_new [OF none])
  have "getCacheForFile ?s1 f = Some (length (entries s))"
    using wf none by (rule getCacheForFile_after_new)
  then have "registerAll f rs ?s1 =
       (replicate (length rs) (length (entries s)),
        ?s1\<lparr>entries := (entries ?s1)
           [length (entries s) := (entries ?s1 ! length (entries s))
              \<lparr>listeners := listeners (entries ?s1 ! length (entries s)) @ map toListener rs\<rparr>]\<rparr>)"
    by (rule registerAll_existing)
  then show ?thesis
    by (simp add: s1 register_new [OF none])
qed

section \<open>Well-formedness is kept\<close>

lemma wellFormed_new: "wellFormed (newMetadataManager h)"
  by (simp add: wellFormed_def newMetadataManager_def)

lemma wellFormed_register: "wellFormed s \<Longrightarrow> wellFormed (snd (register f cb p u s))"
proof (cases "getCacheForFile s f")
  case None
  assume "wellFormed s"
  then show ?thesis
    by (auto simp: register_new [OF None] wellFormed_def less_Suc_eq)
next
  case (Some a)
  assume "wellFormed s"
  then show ?thesis
    by (simp add: register_existing [OF Some] wellFormed_def)
qed

lemma wellFormed_unregister: "wellFormed s \<Longrightarrow> wellFormed (unregister f u s)"
  by (auto simp: unregister_def wellFormed_def Let_def split: option.splits)

lemma wellFormed_updateProperty:
  "wellFormed s \<Longrightarrow> wellFormed (snd (updatePropertyInMetadataFileCache v p f u s))"
  by (auto simp: updatePropertyInMetadataFileCache_def wellFormed_def Let_def
      split: option.splits prod.splits)

lemma wellFormed_external:
  "wellFormed s \<Longrightarrow> wellFormed (updateMetadataFileCacheOnFrontmatterUpdate f d fm s)"
  by (auto simp: updateMetadataFileCacheOnFrontmatterUpdate_def wellFormed_def Let_def
      split: option.splits)

lemma wellFormed_replace: "wellFormed s \<Longrightarrow> wellFormed (updateMetadataFileCache md f u s)"
  by (auto simp: updateMetadataFileCache_def wellFormed_def Let_def split: option.splits)

lemma wellFormed_cachedReadResolved: "wellFormed s \<Longrightarrow> wellFormed (cachedReadResolved i md s)"
  by (auto simp: cachedReadResolved_def wellFormed_def Let_def)

lemma wellFormed_cachedReadRejected: "wellFormed s \<Longrightarrow> wellFormed (cachedReadRejected i s)"
  by (simp add: cachedReadRejected_def wellFormed_def)

lemma wellFormed_writeSettled: "wellFormed s \<Longrightarrow> wellFormed (writeSettled i ok s)"
  by (simp add: writeSettled_def wellFormed_def)

text \<open>The load of a newly created entry resolves: the entry holds what the adapter
  returned (a new empty object for \<open>undefined\<close> and \<open>null\<close>) and its one listener is called.\<close>

lemma load_of_new_entry:
  assumes none: "getCacheForFile s f = None"
  shows "cachedReadResolved (length (loads s)) md (snd (register f cb p u s)) =
     (let fresh = (md = JUndefined \<or> md = JNull);
          h = (if fresh then heap s @ [[], []] else heap s @ [[]]);
          m = (if fresh then JRef (Suc (length (heap s))) else md)
      in s\<lparr>heap := h,
           entries := entries s @
             [\<lparr>filePath = f, metadata = m,
               listeners = [\<lparr>onCacheUpdate = cb, metadataPath = p, uuid = u\<rparr>],
               cyclesSinceLastUpdate = 0, changed = False\<rparr>],
           calls := calls s @ [(cb, traverseObjectByPath p h m)],
           loads := loads s,
           cache := cache s @ [length (entries s)]\<rparr>)"
  by (simp add: register_new [OF none] cachedReadResolved_def notifyListeners_all Let_def nth_append)

text \<open>The copy made at lines 152-153 has the properties of the snapshot, but \<open>position\<close>.\<close>

lemma getProp_copyWithoutPosition:
  "getProp (h @ [copyWithoutPosition h fm] @ h') (JRef (length h)) k =
     (if k = ''position'' then JUndefined else getProp h fm k)"
  by (cases fm) (simp_all add: getProp_def copyWithoutPosition_def nth_append delete_conv')

section \<open>The example runs, evaluated\<close>

lemmas eval_defs =
  getCacheForFile_def entryHasFile_def register_def newMetadataManager_def
  cachedReadResolved_def notifyListeners_def isExcepted_def arrayEquals_def
  updatePropertyInMetadataFileCache_def traverseObjectToParentByPath_def
  getProp_def setProp_def strictEquals_def update_def updateEntry_def updateFrontmatter_def
  updateMetadataFileCacheOnFrontmatterUpdate_def updateCycleThreshold_def
  copyWithoutPosition_def AList.delete_eq unregister_def writeSettled_def
  cachedReadRejected_def Let_def

lemma run1_eq:
  "run1 =
     \<lparr>cache = [0],
      entries =
        [\<lparr>filePath = ''F'', metadata = JRef 4,
          listeners = [\<lparr>onCacheUpdate = 1, metadataPath = [''a'', ''b''], uuid = ''L1''\<rparr>],
          cyclesSinceLastUpdate = 0, changed = False\<rparr>],
      heap = [[(''a'', JRef 1)], [(''b'', JNum 1)],
              [(''a'', JRef 3), (''position'', JNum 0)], [(''b'', JNum 9)], []],
      calls = [], loads = [0], writes = []\<rparr>"
  by (simp add: run1_def run0_def exampleHeap_def eval_defs)

lemma run2_eq:
  "run2 =
     \<lparr>cache = [0],
      entries =
        [\<lparr>filePath = ''F'', metadata = JRef 0,
          listeners = [\<lparr>onCacheUpdate = 1, metadataPath = [''a'', ''b''], uuid = ''L1''\<rparr>],
          cyclesSinceLastUpdate = 0, changed = False\<rparr>],
      heap = [[(''a'', JRef 1)], [(''b'', JNum 1)],
              [(''a'', JRef 3), (''position'', JNum 0)], [(''b'', JNum 9)], []],
      calls = [(1, JNum 1)], loads = [], writes = []\<rparr>"
  by (simp add: run2_def run1_eq eval_defs)

lemma run3_eq:
  "run3 =
     \<lparr>cache = [0],
      entries =
        [\<lparr>filePath = ''F'', metadata = JRef 0,
          listeners = [\<lparr>onCacheUpdate = 1, metadataPath = [''a'', ''b''], uuid = ''L1''\<rparr>],
          cyclesSinceLastUpdate = 0, changed = True\<rparr>],
      heap = [[(''a'', JRef 1)], [(''b'', JNum 2)],
              [(''a'', JRef 3), (''position'', JNum 0)], [(''b'', JNum 9)], []],
      calls = [(1, JNum 1)], loads = [], writes = []\<rparr>"
  by (simp add: run3_def run2_eq eval_defs)

lemma run4_eq:
  "run4 =
     \<lparr>cache = [0],
      entries =
        [\<lparr>filePath = ''F'', metadata = JRef 0,
          listeners = [\<lparr>onCacheUpdate = 1, metadataPath = [''a'', ''b''], uuid = ''L1''\<rparr>,
                       \<lparr>onCacheUpdate = 2, metadataPath = [''a'', ''b''], uuid = ''L2''\<rparr>],
          cyclesSinceLastUpdate = 0, changed = True\<rparr>],
      heap = [[(''a'', JRef 1)], [(''b'', JNum 2)],
              [(''a'', JRef 3), (''position'', JNum 0)], [(''b'', JNum 9)], []],
      calls = [(1, JNum 1)], loads = [], writes = []\<rparr>"
  by (simp add: run4_def run3_eq eval_defs)

lemma run5_eq:
  "run5 =
     \<lparr>cache = [0],
      entries =
        [\<lparr>filePath = ''F'', metadata = JRef 0,
          listeners = [\<lparr>onCacheUpdate = 1, metadataPath = [''a'', ''b''], uuid = ''L1''\<rparr>,
                       \<lparr>onCacheUpdate = 2, metadataPath = [''a'', ''b''], uuid = ''L2''\<rparr>],
          cyclesSinceLastUpdate = 1, changed = False\<rparr>],
      heap = [[(''a'', JRef 1)], [(''b'', JNum 2)],
              [(''a'', JRef 3), (''position'', JNum 0)], [(''b'', JNum 9)], []],
      calls = [(1, JNum 1)], loads = [], writes = [(''F'', JRef 0)]\<rparr>"
  by (simp add: run5_def run4_eq eval_defs)

lemma run6_eq:
  "run6 =
     \<lparr>cache = [0],
      entries =
        [\<lparr>filePath = ''F'', metadata = JRef 0,
          listeners = [\<lparr>onCacheUpdate = 1, metadataPath = [''a'', ''b''], uuid = ''L1''\<rparr>,
                       \<lparr>onCacheUpdate = 2, metadataPath = [''a'', ''b''], uuid = ''L2''\<rparr>],
          cyclesSinceLastUpdate = 5, changed = False\<rparr>],
      heap = [[(''a'', JRef 1)], [(''b'', JNum 2)],
              [(''a'', JRef 3), (''position'', JNum 0)], [(''b'', JNum 9)], []],
      calls = [(1, JNum 1)], loads = [], writes = [(''F'', JRef 0)]\<rparr>"
  by (simp add: run6_def run5_eq eval_defs)

lemma run7_eq:
  "run7 =
     \<lparr>cache = [0],
      entries =
        [\<lparr>filePath = ''F'', metadata = JRef 5,
          listeners = [\<lparr>onCacheUpdate = 1, metadataPath = [''a'', ''b''], uuid = ''L1''\<rparr>,
                       \<lparr>onCacheUpdate = 2, metadataPath = [''a'', ''b''], uuid = ''L2''\<rparr>],
          cyclesSinceLastUpdate = 0, changed = True\<rparr>],
      heap = [[(''a'', JRef 1)], [(''b'', JNum 2)],
              [(''a'', JRef 3), (''position'', JNum 0)], [(''b'', JNum 9)], [],
              [(''a'', JRef 3)]],
      calls = [(1, JNum 1), (1, JNum 9), (2, JNum 9)], loads = [],
      writes = [(''F'', JRef 0)]\<rparr>"
  by (simp add: run7_def run6_eq eval_defs)

lemma tagsRun_eq:
  "tagsRun =
     \<lparr>cache = [0],
      entries =
        [\<lparr>filePath = ''F'', metadata = JRef 0,
          listeners = [\<lparr>onCacheUpdate = 1, metadataPath = [''tags''], uuid = ''L1''\<rparr>,
                       \<lparr>onCacheUpdate = 2, metadataPath = [''tags''], uuid = ''L2''\<rparr>],
          cyclesSinceLastUpdate = 0, changed = False\<rparr>],
      heap = [[(''tags'', JRef 1)], [(''0'', JStr ''x'')], [(''0'', JStr ''x'')], []],
      calls = [(1, JRef 1), (2, JRef 1)], loads = [], writes = []\<rparr>"
  by (simp add: tagsRun_def tagsHeap_def eval_defs)

lemma emptyIdRun_eq:
  "emptyIdRun =
     \<lparr>cache = [0],
      entries =
        [\<lparr>filePath = ''F'', metadata = JRef 0,
          listeners = [\<lparr>onCacheUpdate = 1, metadataPath = [''a''], uuid = []\<rparr>],
          cyclesSinceLastUpdate = 0, changed = False\<rparr>],
      heap = [[]], calls = [], loads = [0], writes = []\<rparr>"
  by (simp add: emptyIdRun_def eval_defs)

lemma secondWriteRun_eq:
  "secondWriteRun =
     \<lparr>cache = [0],
      entries =
        [\<lparr>filePath = ''F'', metadata = JRef 0,
          listeners = [\<lparr>onCacheUpdate = 1, metadataPath = [''a'', ''b''], uuid = ''L1''\<rparr>,
                       \<lparr>onCacheUpdate = 2, metadataPath = [''a'', ''b''], uuid = ''L2''\<rparr>],
          cyclesSinceLastUpdate = 0, changed = True\<rparr>],
      heap = [[(''a'', JRef 1)], [(''b'', JNum 3)],
              [(''a'', JRef 3), (''position'', JNum 0)], [(''b'', JNum 9)], []],
      calls = [(1, JNum 1), (2, JNum 3)], loads = [], writes = [(''F'', JRef 0)]\<rparr>"
  by (simp add: secondWriteRun_def run5_eq eval_defs)

section \<open>The claims\<close>

text \<open>
  C1. For an entry of the table and an external change notification for its file: while
  the entry's \<open>cyclesSinceLastUpdate\<close> is below 5 the notification is dropped and the
  whole state stays as it was (the entry's metadata, flag and listeners, and the trace
  of calls); from 5 on, a copy of the snapshot becomes the entry's metadata and every
  listener is called, in order, with the value at its own path in the new metadata.
\<close>

theorem external_change_gate:
  assumes "getCacheForFile s f = Some a"
  shows "(cyclesSinceLastUpdate (entries s ! a) < 5 \<longrightarrow>
            updateMetadataFileCacheOnFrontmatterUpdate f d fm s = s) \<and>
         (5 \<le> cyclesSinceLastUpdate (entries s ! a) \<longrightarrow>
            metadata (entries (updateMetadataFileCacheOnFrontmatterUpdate f d fm s) ! a)
              = JRef (length (heap s)) \<and>
            heap (updateMetadataFileCacheOnFrontmatterUpdate f d fm s)
              = heap s @ [copyWithoutPosition (heap s) fm] \<and>
            listeners (entries (updateMetadataFileCacheOnFrontmatterUpdate f d fm s) ! a)
              = listeners (entries s ! a) \<and>
            calls (updateMetadataFileCacheOnFrontmatterUpdate f d fm s)
              = calls s @
                map (\<lambda>l. (onCacheUpdate l,
                        traverseObjectByPath (metadataPath l)
                          (heap (updateMetadataFileCacheOnFrontmatterUpdate f d fm s))
                          (metadata
                            (entries (updateMetadataFileCacheOnFrontmatterUpdate f d fm s) ! a))))
                  (listeners (entries s ! a)))"
proof (intro conjI impI)
  assume "cyclesSinceLastUpdate (entries s ! a) < 5"
  with assms show "updateMetadataFileCacheOnFrontmatterUpdate f d fm s = s"
    by (rule external_discarded)
next
  assume old: "5 \<le> cyclesSinceLastUpdate (entries s ! a)"
  have a: "a < length (entries s)" using assms by (rule getCacheForFile_SomeD)
  note eq = external_applied [OF assms old, of d fm]
  show "metadata (entries (updateMetadataFileCacheOnFrontmatterUpdate f d fm s) ! a)
          = JRef (length (heap s))"
    using a by (simp add: eq)
  show "heap (updateMetadataFileCacheOnFrontmatterUpdate f d fm s)
          = heap s @ [copyWithoutPosition (heap s) fm]"
    by (simp add: eq)
  show "listeners (entries (updateMetadataFileCacheOnFrontmatterUpdate f d fm s) ! a)
          = listeners (entries s ! a)"
    using a by (simp add: eq)
  show "calls (updateMetadataFileCacheOnFrontmatterUpdate f d fm s)
          = calls s @
            map (\<lambda>l. (onCacheUpdate l,
                    traverseObjectByPath (metadataPath l)
                      (heap (updateMetadataFileCacheOnFrontmatterUpdate f d fm s))
                      (metadata
                        (entries (updateMetadataFileCacheOnFrontmatterUpdate f d fm s) ! a))))
              (listeners (entries s ! a))"
    using a by (simp add: eq)
qed

theorem external_change_gate_witness:
  "getCacheForFile run5 ''F'' = Some 0 \<and>
   cyclesSinceLastUpdate (entries run5 ! 0) < 5 \<and>
   updateMetadataFileCacheOnFrontmatterUpdate ''F'' [] (JRef 2) run5 = run5 \<and>
   getCacheForFile run6 ''F'' = Some 0 \<and>
   5 \<le> cyclesSinceLastUpdate (entries run6 ! 0) \<and>
   heap (updateMetadataFileCacheOnFrontmatterUpdate ''F'' [] (JRef 2) run6) ! 5 = [(''a'', JRef 3)] \<and>
   metadata (entries (updateMetadataFileCacheOnFrontmatterUpdate ''F'' [] (JRef 2) run6) ! 0) = JRef 5 \<and>
   calls (updateMetadataFileCacheOnFrontmatterUpdate ''F'' [] (JRef 2) run6)
     = calls run6 @ [(1, JNum 9), (2, JNum 9)]"
proof -
  have e5: "getCacheForFile run5 ''F'' = Some 0"
    by (simp add: run5_eq getCacheForFile_def entryHasFile_def)
  have c5: "cyclesSinceLastUpdate (entries run5 ! 0) < 5"
    by (simp add: run5_eq)
  have e6: "getCacheForFile run6 ''F'' = Some 0"
    by (simp add: run6_eq getCacheForFile_def entryHasFile_def)
  have c6: "5 \<le> cyclesSinceLastUpdate (entries run6 ! 0)"
    by (simp add: run6_eq)
  have h: "heap run6 = [[(''a'', JRef 1)], [(''b'', JNum 2)],
              [(''a'', JRef 3), (''position'', JNum 0)], [(''b'', JNum 9)], []]"
    and l: "listeners (entries run6 ! 0) =
      [\<lparr>onCacheUpdate = 1, metadataPath = [''a'', ''b''], uuid = ''L1''\<rparr>,
       \<lparr>onCacheUpdate = 2, metadataPath = [''a'', ''b''], uuid = ''L2''\<rparr>]"
    by (simp_all add: run6_eq)
  from external_change_gate [OF e5, of "[]" "JRef 2"] c5
  have d5: "updateMetadataFileCacheOnFrontmatterUpdate ''F'' [] (JRef 2) run5 = run5"
    by simp
  from external_change_gate [OF e6, of "[]" "JRef 2"] c6
  have d6: "heap (updateMetadataFileCacheOnFrontmatterUpdate ''F'' [] (JRef 2) run6) ! 5 = [(''a'', JRef 3)]"
    "metadata (entries (updateMetadataFileCacheOnFrontmatterUpdate ''F'' [] (JRef 2) run6) ! 0) = JRef 5"
    "calls (updateMetadataFileCacheOnFrontmatterUpdate ''F'' [] (JRef 2) run6)
       = calls run6 @ [(1, JNum 9), (2, JNum 9)]"
    by (simp_all add: h l copyWithoutPosition_def AList.delete_eq getProp_def)
  show ?thesis using e5 c5 d5 e6 c6 d6 by simp
qed

text \<open>
  C2, as amended. The check at line 130 is \<open>child.value === value\<close>. When the parent
  of the path exists and the value passed is strictly equal to the one stored at the
  path (the same scalar other than NaN, or the very same object), the call returns
  without an error and leaves the whole state as it was: metadata, flag, counter, trace
  of calls, pending writes; so the next tick does what it would have done without the
  call.
\<close>

theorem redundant_update_is_noop:
  assumes "getCacheForFile s f = Some a"
    and "traverseObjectToParentByPath p (heap s) (metadata (entries s ! a)) = (parent, key, child)"
    and "parent \<noteq> JUndefined"
    and "strictEquals child v"
  shows "updatePropertyInMetadataFileCache v p f u s = (None, s)"
  using assms by (rule updateProperty_redundant)

theorem redundant_update_is_noop_witness:
  "getCacheForFile run4 ''F'' = Some 0 \<and>
   traverseObjectToParentByPath [''a'', ''b''] (heap run4) (metadata (entries run4 ! 0))
     = (JRef 1, ''b'', JNum 2) \<and>
   JRef 1 \<noteq> JUndefined \<and> strictEquals (JNum 2) (JNum 2) \<and>
   updatePropertyInMetadataFileCache (JNum 2) [''a'', ''b''] ''F'' (Some ''L1'') run4 = (None, run4)"
proof -
  have e: "getCacheForFile run4 ''F'' = Some 0"
    by (simp add: run4_eq getCacheForFile_def entryHasFile_def)
  have t: "traverseObjectToParentByPath [''a'', ''b''] (heap run4) (metadata (entries run4 ! 0))
     = (JRef 1, ''b'', JNum 2)"
    by (simp add: run4_eq traverseObjectToParentByPath_def getProp_def)
  have p: "JRef 1 \<noteq> JUndefined" by simp
  have q: "strictEquals (JNum 2) (JNum 2)" by (simp add: strictEquals_def)
  show ?thesis
    using e t p q redundant_update_is_noop [OF e t p q, of "Some ''L1''"] by simp
qed

text \<open>
  The claim as stated, with deep structural equality (\<open>specDeepEqual\<close>), fails: the
  metadata holds the list \<open>tags: [x]\<close> and a listener passes another list \<open>[x]\<close>. The two
  are deep-equal and not \<open>===\<close>; the call stores the new list, sets the flag, calls the
  other listener, and the next tick writes the file.
\<close>

theorem deep_equal_update_counterexample:
  "getCacheForFile tagsRun ''F'' = Some 0 \<and>
   specDeepEqual 1 (heap tagsRun)
     (traverseObjectByPath [''tags''] (heap tagsRun) (metadata (entries tagsRun ! 0))) (JRef 2) \<and>
   updatePropertyInMetadataFileCache (JRef 2) [''tags''] ''F'' (Some ''L1'') tagsRun
     \<noteq> (None, tagsRun) \<and>
   changed (entries (snd (updatePropertyInMetadataFileCache (JRef 2) [''tags''] ''F''
     (Some ''L1'') tagsRun)) ! 0) \<and>
   \<not> changed (entries tagsRun ! 0) \<and>
   calls (snd (updatePropertyInMetadataFileCache (JRef 2) [''tags''] ''F'' (Some ''L1'') tagsRun))
     = calls tagsRun @ [(2, JRef 2)] \<and>
   writes (update (snd (updatePropertyInMetadataFileCache (JRef 2) [''tags''] ''F''
     (Some ''L1'') tagsRun))) = [(''F'', JRef 0)] \<and>
   writes (update tagsRun) = []"
  by (simp add: tagsRun_eq eval_defs)

text \<open>
  C3. When the entry exists and the parent that \<open>traverseObjectToParentByPath\<close> locates
  for the path is \<open>undefined\<close>, the call throws the error of line 127 and leaves the
  whole state as it was: metadata, flag, counter, listeners.
\<close>

theorem missing_parent_throws:
  assumes "getCacheForFile s f = Some a"
    and "fst (traverseObjectToParentByPath p (heap s) (metadata (entries s ! a))) = JUndefined"
  shows "updatePropertyInMetadataFileCache v p f u s = (Some (MissingParentPath p), s)"
  using assms by (rule updateProperty_missing_parent)

theorem missing_parent_throws_witness:
  "getCacheForFile run4 ''F'' = Some 0 \<and>
   fst (traverseObjectToParentByPath [''x'', ''y''] (heap run4) (metadata (entries run4 ! 0)))
     = JUndefined \<and>
   updatePropertyInMetadataFileCache (JNum 7) [''x'', ''y''] ''F'' (Some ''L1'') run4
     = (Some (MissingParentPath [''x'', ''y'']), run4)"
proof -
  have e: "getCacheForFile run4 ''F'' = Some 0"
    by (simp add: run4_eq getCacheForFile_def entryHasFile_def)
  have t: "fst (traverseObjectToParentByPath [''x'', ''y''] (heap run4)
      (metadata (entries run4 ! 0))) = JUndefined"
    by (simp add: run4_eq traverseObjectToParentByPath_def getProp_def)
  show ?thesis
    using e t missing_parent_throws [OF e t, of "JNum 7" "Some ''L1''"] by simp
qed

text \<open>
  C4, as amended. Take a call on an existing entry with a non-empty path whose parent is
  an object that is not among its own ancestors on the path (data read from a file is a
  tree), a value not \<open>===\<close> to the stored one, and an \<open>originId\<close> that is absent or a
  non-empty string. The call throws nothing; afterwards the metadata holds the value at
  the path, the flag is set, the counter is zero, the listeners are the same, and the
  calls made are exactly, in order, those of the listeners whose path equals the path
  and whose id differs from \<open>originId\<close>, each with the value.
\<close>

theorem effective_update:
  assumes entry: "getCacheForFile s f = Some a"
    and path: "p \<noteq> []"
    and parent: "traverseObjectByPath (butlast p) (heap s) (metadata (entries s ! a)) = JRef b"
    and object: "b < length (heap s)"
    and tree: "JRef b \<notin> set (visited (butlast p) (heap s) (metadata (entries s ! a)))"
    and new: "\<not> strictEquals (getProp (heap s) (JRef b) (last p)) v"
    and origin: "u \<noteq> Some []"
  shows "fst (updatePropertyInMetadataFileCache v p f u s) = None \<and>
         traverseObjectByPath p
           (heap (snd (updatePropertyInMetadataFileCache v p f u s)))
           (metadata (entries (snd (updatePropertyInMetadataFileCache v p f u s)) ! a)) = v \<and>
         changed (entries (snd (updatePropertyInMetadataFileCache v p f u s)) ! a) \<and>
         cyclesSinceLastUpdate (entries (snd (updatePropertyInMetadataFileCache v p f u s)) ! a) = 0 \<and>
         listeners (entries (snd (updatePropertyInMetadataFileCache v p f u s)) ! a)
           = listeners (entries s ! a) \<and>
         calls (snd (updatePropertyInMetadataFileCache v p f u s))
           = calls s @
             map (\<lambda>l. (onCacheUpdate l, v))
               (filter (\<lambda>l. metadataPath l = p \<and> Some (uuid l) \<noteq> u) (listeners (entries s ! a)))"
proof -
  have a: "a < length (entries s)" using entry by (rule getCacheForFile_SomeD)
  note eq = updateProperty_effective [OF entry path parent object new, of u]
  have val: "traverseObjectByPath p ((heap s)[b := AList.update (last p) v (heap s ! b)])
      (metadata (entries s ! a)) = v"
    using path parent object tree by (rule traverse_after_write)
  have sel: "(\<lambda>l. \<not> isExcepted u l \<and> metadataPath l = p)
      = (\<lambda>l. metadataPath l = p \<and> Some (uuid l) \<noteq> u)"
    using origin by (auto simp: fun_eq_iff isExcepted_iff)
  show ?thesis
    using a by (simp add: eq val sel)
qed

theorem effective_update_witness:
  "getCacheForFile run4 ''F'' = Some 0 \<and> [''a'', ''b''] \<noteq> [] \<and>
   traverseObjectByPath (butlast [''a'', ''b'']) (heap run4) (metadata (entries run4 ! 0)) = JRef 1 \<and>
   1 < length (heap run4) \<and>
   JRef 1 \<notin> set (visited (butlast [''a'', ''b'']) (heap run4) (metadata (entries run4 ! 0))) \<and>
   \<not> strictEquals (getProp (heap run4) (JRef 1) (last [''a'', ''b''])) (JNum 3) \<and>
   Some ''L1'' \<noteq> Some [] \<and>
   traverseObjectByPath [''a'', ''b'']
     (heap (snd (updatePropertyInMetadataFileCache (JNum 3) [''a'', ''b''] ''F'' (Some ''L1'') run4)))
     (metadata (entries (snd (updatePropertyInMetadataFileCache (JNum 3) [''a'', ''b''] ''F''
        (Some ''L1'') run4)) ! 0)) = JNum 3 \<and>
   calls (snd (updatePropertyInMetadataFileCache (JNum 3) [''a'', ''b''] ''F'' (Some ''L1'') run4))
     = calls run4 @ [(2, JNum 3)]"
proof -
  have e: "getCacheForFile run4 ''F'' = Some 0"
    by (simp add: run4_eq getCacheForFile_def entryHasFile_def)
  have p: "[''a'', ''b''] \<noteq> []" by simp
  have t: "traverseObjectByPath (butlast [''a'', ''b'']) (heap run4) (metadata (entries run4 ! 0))
      = JRef 1"
    by (simp add: run4_eq getProp_def)
  have b: "1 < length (heap run4)" by (simp add: run4_eq)
  have n: "JRef 1 \<notin> set (visited (butlast [''a'', ''b'']) (heap run4) (metadata (entries run4 ! 0)))"
    by (simp add: run4_eq)
  have d: "\<not> strictEquals (getProp (heap run4) (JRef 1) (last [''a'', ''b''])) (JNum 3)"
    by (simp add: run4_eq getProp_def strictEquals_def)
  have o: "Some ''L1'' \<noteq> Some []" by simp
  have l: "listeners (entries run4 ! 0) =
      [\<lparr>onCacheUpdate = 1, metadataPath = [''a'', ''b''], uuid = ''L1''\<rparr>,
       \<lparr>onCacheUpdate = 2, metadataPath = [''a'', ''b''], uuid = ''L2''\<rparr>]"
    by (simp add: run4_eq)
  show ?thesis
    using e p t b n d o effective_update [OF e p t b n d o] by (simp add: l)
qed

text \<open>
  The claim as stated fails for the empty string: line 171 tests \<open>exceptUuid &&\<close> first
  and the empty string is falsy, so a listener registered under the id \<open>''\<close> is called
  by the update it originated under that id.
\<close>

theorem empty_origin_counterexample:
  "getCacheForFile emptyIdRun ''F'' = Some 0 \<and>
   listeners (entries emptyIdRun ! 0) = [\<lparr>onCacheUpdate = 1, metadataPath = [''a''], uuid = []\<rparr>] \<and>
   updatePropertyInMetadataFileCache (JNum 1) [''a''] ''F'' (Some []) emptyIdRun
     = (None,
        emptyIdRun\<lparr>heap := [[(''a'', JNum 1)]],
          entries := [(entries emptyIdRun ! 0)\<lparr>cyclesSinceLastUpdate := 0, changed := True\<rparr>],
          calls := [(1, JNum 1)]\<rparr>)"
  by (simp add: emptyIdRun_eq eval_defs)

text \<open>
  C5, as amended. The manager keeps no record of writes in flight. On a tick, in a
  well-formed state, one write is started for every entry of the table whose flag is
  set, in table order, whatever writes are still pending; the flag of every entry of
  the table is clear afterwards (line 97 clears it just before the write is started,
  in the same step) and its counter is one higher.
\<close>

theorem tick_writes_every_dirty_entry:
  assumes "wellFormed s" and "a \<in> set (cache s)"
  shows "writes (update s) =
           writes s @
           map (\<lambda>x. (filePath (entries s ! x), metadata (entries s ! x)))
             (filter (\<lambda>x. changed (entries s ! x)) (cache s)) \<and>
         \<not> changed (entries (update s) ! a) \<and>
         cyclesSinceLastUpdate (entries (update s) ! a) = cyclesSinceLastUpdate (entries s ! a) + 1"
proof -
  have "writeOf s = (\<lambda>x. (filePath (entries s ! x), metadata (entries s ! x)))"
    by (simp add: fun_eq_iff writeOf_def)
  then show ?thesis
    using assms by (simp add: update_writes update_entry ticked_def)
qed

theorem tick_writes_every_dirty_entry_witness:
  "wellFormed secondWriteRun \<and> 0 \<in> set (cache secondWriteRun) \<and>
   writes secondWriteRun = [(''F'', JRef 0)] \<and>
   writes (update secondWriteRun) = [(''F'', JRef 0), (''F'', JRef 0)] \<and>
   \<not> changed (entries (update secondWriteRun) ! 0) \<and>
   cyclesSinceLastUpdate (entries (update secondWriteRun) ! 0) = 1"
proof -
  have w: "wellFormed secondWriteRun" by (simp add: secondWriteRun_eq wellFormed_def)
  have c: "0 \<in> set (cache secondWriteRun)" by (simp add: secondWriteRun_eq)
  have v: "writes secondWriteRun = [(''F'', JRef 0)]" "cache secondWriteRun = [0]"
    "entries secondWriteRun ! 0 =
       \<lparr>filePath = ''F'', metadata = JRef 0,
        listeners = [\<lparr>onCacheUpdate = 1, metadataPath = [''a'', ''b''], uuid = ''L1''\<rparr>,
                     \<lparr>onCacheUpdate = 2, metadataPath = [''a'', ''b''], uuid = ''L2''\<rparr>],
        cyclesSinceLastUpdate = 0, changed = True\<rparr>"
    by (simp_all add: secondWriteRun_eq)
  show ?thesis
    using w c tick_writes_every_dirty_entry [OF w c] by (simp add: v)
qed

text \<open>
  The claim as stated fails: after an update, a tick, and a second update, the first
  write is still pending and the entry is dirty; the next tick starts a second write
  for the same file and leaves the entry clean.
\<close>

theorem second_write_in_flight_counterexample:
  "writes secondWriteRun = [(''F'', JRef 0)] \<and>
   getCacheForFile secondWriteRun ''F'' = Some 0 \<and>
   changed (entries secondWriteRun ! 0) \<and>
   writes (update secondWriteRun) = [(''F'', JRef 0), (''F'', JRef 0)] \<and>
   \<not> changed (entries (update secondWriteRun) ! 0)"
  by (simp add: secondWriteRun_eq eval_defs)

text \<open>
  C6, as amended. A failed write or read runs no code of the manager and calls no
  listener. After a tick the flag of an entry of the table is clear whether the write
  then fails or not, and the next tick starts no write at all; a failed read changes
  no entry, and a later \<open>register\<close> for the file of an existing entry starts no load.
\<close>

theorem failure_runs_no_code:
  assumes "wellFormed s" and "a \<in> set (cache s)"
  shows "\<not> changed (entries (writeSettled i False (update s)) ! a) \<and>
         calls (writeSettled i False (update s)) = calls s \<and>
         writes (update (writeSettled i False (update s))) = writes (writeSettled i False (update s)) \<and>
         entries (cachedReadRejected j s) = entries s \<and>
         cache (cachedReadRejected j s) = cache s \<and>
         heap (cachedReadRejected j s) = heap s \<and>
         calls (cachedReadRejected j s) = calls s \<and>
         (getCacheForFile s (filePath (entries s ! a)) = Some a \<longrightarrow>
            loads (snd (register (filePath (entries s ! a)) cb p u (cachedReadRejected j s)))
              = loads (cachedReadRejected j s))"
proof -
  let ?t = "writeSettled i False (update s)"
  have t: "cache ?t = cache s" "entries ?t = entries (update s)" "calls ?t = calls s"
    by (simp_all add: writeSettled_def update_frame)
  have wf: "wellFormed ?t"
    using assms(1) by (intro wellFormed_writeSettled wellFormed_update)
  have clean: "\<not> changed (entries ?t ! x)" if "x \<in> set (cache s)" for x
    using assms(1) that by (simp add: t update_entry ticked_def)
  have "filter (\<lambda>x. changed (entries ?t ! x)) (cache ?t) = []"
    using clean by (simp add: t(1) filter_empty_conv)
  then have again: "writes (update ?t) = writes ?t"
    using wf by (simp add: update_writes)
  have r: "getCacheForFile (cachedReadRejected j s) f = getCacheForFile s f" for f
    by (rule getCacheForFile_cong) (simp_all add: cachedReadRejected_def)
  show ?thesis
    using clean [OF assms(2)] again
    by (simp add: t(3) r register_existing) (simp add: cachedReadRejected_def)
qed

theorem failure_runs_no_code_witness:
  "wellFormed run4 \<and> 0 \<in> set (cache run4) \<and>
   changed (entries run4 ! 0) \<and>
   \<not> changed (entries (writeSettled 0 False (update run4)) ! 0) \<and>
   writes (update (writeSettled 0 False (update run4))) = [] \<and>
   getCacheForFile run4 (filePath (entries run4 ! 0)) = Some 0 \<and>
   loads (snd (register (filePath (entries run4 ! 0)) 3 [''a''] ''L3'' (cachedReadRejected 0 run4)))
     = loads (cachedReadRejected 0 run4) \<and>
   wellFormed run1 \<and> 0 \<in> set (cache run1) \<and> loads run1 = [0] \<and>
   getCacheForFile run1 (filePath (entries run1 ! 0)) = Some 0 \<and>
   entries (cachedReadRejected 0 run1) = entries run1 \<and>
   calls (cachedReadRejected 0 run1) = [] \<and>
   loads (snd (register (filePath (entries run1 ! 0)) 3 [''a''] ''L3'' (cachedReadRejected 0 run1)))
     = []"
proof -
  have w: "wellFormed run4" by (simp add: run4_eq wellFormed_def)
  have c: "0 \<in> set (cache run4)" by (simp add: run4_eq)
  have d: "changed (entries run4 ! 0)" by (simp add: run4_eq)
  have e: "getCacheForFile run4 (filePath (entries run4 ! 0)) = Some 0"
    by (simp add: run4_eq getCacheForFile_def entryHasFile_def)
  have x: "writes (writeSettled 0 False (update run4)) = []"
    by (simp add: run5_def [symmetric] run5_eq writeSettled_def)
  have first: "\<not> changed (entries (writeSettled 0 False (update run4)) ! 0) \<and>
      writes (update (writeSettled 0 False (update run4))) = [] \<and>
      loads (snd (register (filePath (entries run4 ! 0)) 3 [''a''] ''L3''
        (cachedReadRejected 0 run4))) = loads (cachedReadRejected 0 run4)"
    using e failure_runs_no_code [OF w c, of 0 0 3 "[''a'']" "''L3''"] by (simp add: x)
  have w1: "wellFormed run1" by (simp add: run1_eq wellFormed_def)
  have c1: "0 \<in> set (cache run1)" by (simp add: run1_eq)
  have l1: "loads run1 = [0]" "calls run1 = []" by (simp_all add: run1_eq)
  have e1: "getCacheForFile run1 (filePath (entries run1 ! 0)) = Some 0"
    by (simp add: run1_eq getCacheForFile_def entryHasFile_def)
  have r1: "loads (cachedReadRejected 0 run1) = []"
    by (simp add: cachedReadRejected_def l1)
  have second: "entries (cachedReadRejected 0 run1) = entries run1 \<and>
      calls (cachedReadRejected 0 run1) = [] \<and>
      loads (snd (register (filePath (entries run1 ! 0)) 3 [''a''] ''L3''
        (cachedReadRejected 0 run1))) = []"
    using e1 failure_runs_no_code [OF w1 c1, of 0 0 3 "[''a'']" "''L3''"] by (simp add: r1 l1)
  show ?thesis
    using w c d e first w1 c1 l1(1) e1 second by simp
qed

text \<open>
  The claim as stated fails: the one pending write of the run fails; the entry is not
  dirty, and the next tick starts no write.
\<close>

theorem failed_write_counterexample:
  "writes run5 = [(''F'', JRef 0)] \<and>
   \<not> changed (entries (writeSettled 0 False run5) ! 0) \<and>
   writes (writeSettled 0 False run5) = [] \<and>
   writes (update (writeSettled 0 False run5)) = []"
  by (simp add: run5_eq eval_defs)

text \<open>
  C7. When the entry of a file has one listener left and \<open>unregister\<close> is called with its
  id, the entry is out of the table when the call returns. A \<open>register\<close> for the same
  file then creates a new entry object, with a new empty object as metadata, the new
  listener alone, a zero counter and a clear flag, and starts one load for it. When
  that load resolves, the new entry's metadata is what the adapter returned (a new empty
  object when it returned \<open>undefined\<close> or \<open>null\<close>), its listener is called with the
  value at its path in that data, and, in a well-formed state, the lookup for the file
  gives the new entry: nothing of the old entry's metadata, flag or counter is in it.
\<close>

theorem unregister_last_then_register:
  assumes "getCacheForFile s f = Some a"
    and "listeners (entries s ! a) = [l]"
    and "uuid l = u"
  shows "getCacheForFile (unregister f u s) f = None \<and>
         a \<notin> set (cache (unregister f u s)) \<and>
         register f cb p u' (unregister f u s) =
           (length (entries s),
            (unregister f u s)
              \<lparr>heap := heap s @ [[]],
               entries := entries (unregister f u s) @
                 [\<lparr>filePath = f, metadata = JRef (length (heap s)),
                   listeners = [\<lparr>onCacheUpdate = cb, metadataPath = p, uuid = u'\<rparr>],
                   cyclesSinceLastUpdate = 0, changed = False\<rparr>],
               loads := loads s @ [length (entries s)],
               cache := cache (unregister f u s) @ [length (entries s)]\<rparr>) \<and>
         a \<noteq> length (entries s) \<and>
         cachedReadResolved (length (loads s)) md (snd (register f cb p u' (unregister f u s))) =
           (unregister f u s)
             \<lparr>heap := (if md = JUndefined \<or> md = JNull then heap s @ [[], []] else heap s @ [[]]),
              entries := entries (unregister f u s) @
                [\<lparr>filePath = f,
                  metadata = (if md = JUndefined \<or> md = JNull
                              then JRef (Suc (length (heap s))) else md),
                  listeners = [\<lparr>onCacheUpdate = cb, metadataPath = p, uuid = u'\<rparr>],
                  cyclesSinceLastUpdate = 0, changed = False\<rparr>],
              calls := calls s @
                [(cb, traverseObjectByPath p
                        (if md = JUndefined \<or> md = JNull then heap s @ [[], []] else heap s @ [[]])
                        (if md = JUndefined \<or> md = JNull
                         then JRef (Suc (length (heap s))) else md))],
              loads := loads s,
              cache := cache (unregister f u s) @ [length (entries s)]\<rparr> \<and>
         (wellFormed s \<longrightarrow>
            getCacheForFile
              (cachedReadResolved (length (loads s)) md
                (snd (register f cb p u' (unregister f u s)))) f = Some (length (entries s)))"
proof -
  let ?s1 = "unregister f u s"
  let ?s3 = "cachedReadResolved (length (loads s)) md (snd (register f cb p u' ?s1))"
  have gone: "getCacheForFile ?s1 f = None"
    using assms by (rule getCacheForFile_after_unregister_last)
  have a: "a < length (entries s)" "filePath (entries s ! a) = f"
    using assms(1) by (rule getCacheForFile_SomeD)+
  have out: "a \<notin> set (cache ?s1)"
    using a by (simp add: unregister_last [OF assms] entryHasFile_def)
  have same: "heap ?s1 = heap s" "loads ?s1 = loads s" "calls ?s1 = calls s"
    "length (entries ?s1) = length (entries s)"
    by (simp_all add: unregister_last [OF assms])
  have created: "register f cb p u' ?s1 =
           (length (entries s),
            ?s1\<lparr>heap := heap s @ [[]],
               entries := entries ?s1 @
                 [\<lparr>filePath = f, metadata = JRef (length (heap s)),
                   listeners = [\<lparr>onCacheUpdate = cb, metadataPath = p, uuid = u'\<rparr>],
                   cyclesSinceLastUpdate = 0, changed = False\<rparr>],
               loads := loads s @ [length (entries s)],
               cache := cache ?s1 @ [length (entries s)]\<rparr>)"
    by (simp add: register_new [OF gone] same)
  have loaded: "?s3 =
           ?s1\<lparr>heap := (if md = JUndefined \<or> md = JNull then heap s @ [[], []] else heap s @ [[]]),
              entries := entries ?s1 @
                [\<lparr>filePath = f,
                  metadata = (if md = JUndefined \<or> md = JNull
                              then JRef (Suc (length (heap s))) else md),
                  listeners = [\<lparr>onCacheUpdate = cb, metadataPath = p, uuid = u'\<rparr>],
                  cyclesSinceLastUpdate = 0, changed = False\<rparr>],
              calls := calls s @
                [(cb, traverseObjectByPath p
                        (if md = JUndefined \<or> md = JNull then heap s @ [[], []] else heap s @ [[]])
                        (if md = JUndefined \<or> md = JNull
                         then JRef (Suc (length (heap s))) else md))],
              loads := loads s,
              cache := cache ?s1 @ [length (entries s)]\<rparr>"
    using load_of_new_entry [OF gone, of md cb p u'] by (simp add: same Let_def)
  have found: "getCacheForFile ?s3 f = Some (length (entries s))" if wf: "wellFormed s"
  proof -
    have old: "\<not> entryHasFile ?s3 f x" if "x \<in> set (cache ?s1)" for x
    proof -
      have "\<not> entryHasFile ?s1 f x"
        using gone that by (simp add: getCacheForFile_def find_None_iff)
      moreover have "x < length (entries s)"
        using that wf by (simp add: unregister_last [OF assms] wellFormed_def)
      ultimately show ?thesis
        by (simp add: loaded entryHasFile_def nth_append same)
    qed
    have new: "entryHasFile ?s3 f (length (entries s))"
      by (simp add: loaded entryHasFile_def same nth_append)
    have cache: "cache ?s3 = cache ?s1 @ [length (entries s)]"
      by (simp add: loaded)
    show ?thesis
      using old new
      by (simp add: getCacheForFile_def cache find_snoc find_None_iff [THEN iffD2])
  qed
  show ?thesis using gone out created a(1) loaded found by blast
qed

theorem unregister_last_then_register_witness:
  "getCacheForFile run3 ''F'' = Some 0 \<and>
   listeners (entries run3 ! 0) = [\<lparr>onCacheUpdate = 1, metadataPath = [''a'', ''b''], uuid = ''L1''\<rparr>] \<and>
   uuid \<lparr>onCacheUpdate = 1, metadataPath = [''a'', ''b''], uuid = ''L1''\<rparr> = ''L1'' \<and>
   wellFormed run3 \<and>
   metadata (entries run3 ! 0) = JRef 0 \<and> changed (entries run3 ! 0) \<and>
   traverseObjectByPath [''a'', ''b''] (heap run3) (JRef 0) = JNum 2 \<and>
   cache (unregister ''F'' ''L1'' run3) = [] \<and>
   fst (register ''F'' 3 [''a'', ''b''] ''L3'' (unregister ''F'' ''L1'' run3)) = 1 \<and>
   entries (snd (register ''F'' 3 [''a'', ''b''] ''L3'' (unregister ''F'' ''L1'' run3))) ! 1 =
     \<lparr>filePath = ''F'', metadata = JRef 5,
      listeners = [\<lparr>onCacheUpdate = 3, metadataPath = [''a'', ''b''], uuid = ''L3''\<rparr>],
      cyclesSinceLastUpdate = 0, changed = False\<rparr> \<and>
   heap (snd (register ''F'' 3 [''a'', ''b''] ''L3'' (unregister ''F'' ''L1'' run3))) ! 5 = [] \<and>
   loads (snd (register ''F'' 3 [''a'', ''b''] ''L3'' (unregister ''F'' ''L1'' run3))) = [1] \<and>
   entries (cachedReadResolved 0 (JRef 2)
       (snd (register ''F'' 3 [''a'', ''b''] ''L3'' (unregister ''F'' ''L1'' run3)))) ! 1 =
     \<lparr>filePath = ''F'', metadata = JRef 2,
      listeners = [\<lparr>onCacheUpdate = 3, metadataPath = [''a'', ''b''], uuid = ''L3''\<rparr>],
      cyclesSinceLastUpdate = 0, changed = False\<rparr> \<and>
   calls (cachedReadResolved 0 (JRef 2)
       (snd (register ''F'' 3 [''a'', ''b''] ''L3'' (unregister ''F'' ''L1'' run3))))
     = calls run3 @ [(3, JNum 9)] \<and>
   loads (cachedReadResolved 0 (JRef 2)
       (snd (register ''F'' 3 [''a'', ''b''] ''L3'' (unregister ''F'' ''L1'' run3)))) = [] \<and>
   getCacheForFile (cachedReadResolved 0 (JRef 2)
       (snd (register ''F'' 3 [''a'', ''b''] ''L3'' (unregister ''F'' ''L1'' run3)))) ''F'' = Some 1"
proof -
  have e: "getCacheForFile run3 ''F'' = Some 0"
    by (simp add: run3_eq getCacheForFile_def entryHasFile_def)
  have l: "listeners (entries run3 ! 0) =
      [\<lparr>onCacheUpdate = 1, metadataPath = [''a'', ''b''], uuid = ''L1''\<rparr>]"
    by (simp add: run3_eq)
  have u: "uuid \<lparr>onCacheUpdate = 1, metadataPath = [''a'', ''b''], uuid = ''L1''\<rparr> = ''L1''"
    by simp
  have w: "wellFormed run3" by (simp add: run3_eq wellFormed_def)
  have o: "metadata (entries run3 ! 0) = JRef 0" "changed (entries run3 ! 0)"
    "traverseObjectByPath [''a'', ''b''] (heap run3) (JRef 0) = JNum 2"
    by (simp_all add: run3_eq getProp_def)
  have v: "length (entries run3) = 1" "length (heap run3) = 5" "loads run3 = []"
    "heap run3 = [[(''a'', JRef 1)], [(''b'', JNum 2)],
              [(''a'', JRef 3), (''position'', JNum 0)], [(''b'', JNum 9)], []]"
    by (simp_all add: run3_eq)
  have c: "cache (unregister ''F'' ''L1'' run3) = []"
    by (simp add: unregister_last [OF e l u]) (simp add: run3_eq entryHasFile_def)
  have n: "length (entries (unregister ''F'' ''L1'' run3)) = 1"
    by (simp add: unregister_last [OF e l u] v)
  note T = unregister_last_then_register [OF e l u, of 3 "[''a'', ''b'']" "''L3''" "JRef 2", unfolded v(3) list.size(3)]
  note created = T [THEN conjunct2, THEN conjunct2, THEN conjunct1]
  note loaded = T [THEN conjunct2, THEN conjunct2, THEN conjunct2, THEN conjunct2, THEN conjunct1]
  note found = T [THEN conjunct2, THEN conjunct2, THEN conjunct2, THEN conjunct2,
      THEN conjunct2, rule_format, OF w]
  have r: "fst (register ''F'' 3 [''a'', ''b''] ''L3'' (unregister ''F'' ''L1'' run3)) = 1"
    "entries (snd (register ''F'' 3 [''a'', ''b''] ''L3'' (unregister ''F'' ''L1'' run3))) ! 1 =
     \<lparr>filePath = ''F'', metadata = JRef 5,
      listeners = [\<lparr>onCacheUpdate = 3, metadataPath = [''a'', ''b''], uuid = ''L3''\<rparr>],
      cyclesSinceLastUpdate = 0, changed = False\<rparr>"
    "heap (snd (register ''F'' 3 [''a'', ''b''] ''L3'' (unregister ''F'' ''L1'' run3))) ! 5 = []"
    "loads (snd (register ''F'' 3 [''a'', ''b''] ''L3'' (unregister ''F'' ''L1'' run3))) = [1]"
    by (simp_all add: created v n nth_append)
  have d: "entries (cachedReadResolved 0 (JRef 2)
       (snd (register ''F'' 3 [''a'', ''b''] ''L3'' (unregister ''F'' ''L1'' run3)))) ! 1 =
     \<lparr>filePath = ''F'', metadata = JRef 2,
      listeners = [\<lparr>onCacheUpdate = 3, metadataPath = [''a'', ''b''], uuid = ''L3''\<rparr>],
      cyclesSinceLastUpdate = 0, changed = False\<rparr>"
    "calls (cachedReadResolved 0 (JRef 2)
       (snd (register ''F'' 3 [''a'', ''b''] ''L3'' (unregister ''F'' ''L1'' run3))))
     = calls run3 @ [(3, JNum 9)]"
    "loads (cachedReadResolved 0 (JRef 2)
       (snd (register ''F'' 3 [''a'', ''b''] ''L3'' (unregister ''F'' ''L1'' run3)))) = []"
    by (simp_all add: loaded v n nth_append getProp_def)
  have g: "getCacheForFile (cachedReadResolved 0 (JRef 2)
       (snd (register ''F'' 3 [''a'', ''b''] ''L3'' (unregister ''F'' ''L1'' run3)))) ''F'' = Some 1"
    using found by (simp add: v)
  show ?thesis
    using e l u w o c r d g by simp
qed

text \<open>
  C8. A \<open>register\<close> for a file that has an entry returns that entry and changes nothing
  but the entry's listeners, to which it appends the new one: no load is started and
  no callback is called. A sequence of \<open>register\<close> calls for a file without an entry, in
  a well-formed state, creates one entry, returns it every time, starts exactly one
  load, calls no callback, and leaves the listeners in the order of the calls.
\<close>

theorem register_loads_once:
  "(getCacheForFile s f = Some a \<longrightarrow>
      register f cb p u s =
        (a, s\<lparr>entries := (entries s)
               [a := (entries s ! a)
                  \<lparr>listeners := listeners (entries s ! a) @
                     [\<lparr>onCacheUpdate = cb, metadataPath = p, uuid = u\<rparr>]\<rparr>]\<rparr>)) \<and>
   (wellFormed s \<and> getCacheForFile s f = None \<longrightarrow>
      registerAll f ((cb, p, u) # rs) s =
        (replicate (Suc (length rs)) (length (entries s)),
         s\<lparr>heap := heap s @ [[]],
           entries := entries s @
             [\<lparr>filePath = f, metadata = JRef (length (heap s)),
               listeners = map toListener ((cb, p, u) # rs),
               cyclesSinceLastUpdate = 0, changed = False\<rparr>],
           loads := loads s @ [length (entries s)],
           cache := cache s @ [length (entries s)]\<rparr>))"
proof (intro conjI impI)
  assume "getCacheForFile s f = Some a"
  then show "register f cb p u s =
        (a, s\<lparr>entries := (entries s)
               [a := (entries s ! a)
                  \<lparr>listeners := listeners (entries s ! a) @
                     [\<lparr>onCacheUpdate = cb, metadataPath = p, uuid = u\<rparr>]\<rparr>]\<rparr>)"
    by (rule register_existing)
next
  assume "wellFormed s \<and> getCacheForFile s f = None"
  then show "registerAll f ((cb, p, u) # rs) s =
        (replicate (Suc (length rs)) (length (entries s)),
         s\<lparr>heap := heap s @ [[]],
           entries := entries s @
             [\<lparr>filePath = f, metadata = JRef (length (heap s)),
               listeners = map toListener ((cb, p, u) # rs),
               cyclesSinceLastUpdate = 0, changed = False\<rparr>],
           loads := loads s @ [length (entries s)],
           cache := cache s @ [length (entries s)]\<rparr>)"
    by (intro registerAll_new) simp_all
qed

theorem register_loads_once_witness:
  "wellFormed run0 \<and> getCacheForFile run0 ''F'' = None \<and>
   fst (registerAll ''F'' [(1, [''a'', ''b''], ''L1''), (2, [''a'', ''b''], ''L2''), (3, [''a''], ''L3'')] run0)
     = [0, 0, 0] \<and>
   loads (snd (registerAll ''F''
     [(1, [''a'', ''b''], ''L1''), (2, [''a'', ''b''], ''L2''), (3, [''a''], ''L3'')] run0)) = [0] \<and>
   calls (snd (registerAll ''F''
     [(1, [''a'', ''b''], ''L1''), (2, [''a'', ''b''], ''L2''), (3, [''a''], ''L3'')] run0)) = [] \<and>
   getCacheForFile run3 ''F'' = Some 0 \<and>
   fst (register ''F'' 2 [''a'', ''b''] ''L2'' run3) = 0 \<and>
   loads (snd (register ''F'' 2 [''a'', ''b''] ''L2'' run3)) = loads run3 \<and>
   calls (snd (register ''F'' 2 [''a'', ''b''] ''L2'' run3)) = calls run3"
proof -
  have w: "wellFormed run0" by (simp add: run0_def wellFormed_new)
  have e: "getCacheForFile run0 ''F'' = None"
    by (simp add: run0_def newMetadataManager_def getCacheForFile_def)
  have v: "entries run0 = []" "loads run0 = []" "calls run0 = []"
    by (simp_all add: run0_def newMetadataManager_def)
  have e3: "getCacheForFile run3 ''F'' = Some 0"
    by (simp add: run3_eq getCacheForFile_def entryHasFile_def)
  show ?thesis
    using w e e3
      register_loads_once [of run0 "''F''" 0 1 "[''a'', ''b'']" "''L1''"
        "[(2, [''a'', ''b''], ''L2''), (3, [''a''], ''L3'')]"]
      register_loads_once [of run3 "''F''" 0 2 "[''a'', ''b'']" "''L2''" "[]"]
    by (simp add: v)
qed

text \<open>
  C9. When an external change is accepted (counter at 5 or more, well-formed state), the
  entry's counter is zero and its flag is set; the next tick starts a write for the
  file of the entry's metadata, which is the new object made from the snapshot: after
  the tick it still has, for every key but \<open>position\<close>, the value the snapshot has, and
  no \<open>position\<close>. After any number \<open>k < 5\<close> of ticks with nothing else in between, a
  further external change for the file is dropped.
\<close>

theorem accepted_change_resets_and_dirties:
  assumes wf: "wellFormed s"
    and entry: "getCacheForFile s f = Some a"
    and old: "5 \<le> cyclesSinceLastUpdate (entries s ! a)"
  shows "cyclesSinceLastUpdate
           (entries (updateMetadataFileCacheOnFrontmatterUpdate f d fm s) ! a) = 0 \<and>
         changed (entries (updateMetadataFileCacheOnFrontmatterUpdate f d fm s) ! a) \<and>
         (f, metadata (entries (updateMetadataFileCacheOnFrontmatterUpdate f d fm s) ! a))
           \<in> set (drop (length (writes (updateMetadataFileCacheOnFrontmatterUpdate f d fm s)))
                 (writes (update (updateMetadataFileCacheOnFrontmatterUpdate f d fm s)))) \<and>
         (\<forall>k<5. updateMetadataFileCacheOnFrontmatterUpdate f d' fm'
                   ((update ^^ k) (updateMetadataFileCacheOnFrontmatterUpdate f d fm s))
                 = (update ^^ k) (updateMetadataFileCacheOnFrontmatterUpdate f d fm s)) \<and>
         metadata (entries (updateMetadataFileCacheOnFrontmatterUpdate f d fm s) ! a)
           = JRef (length (heap s)) \<and>
         metadata (entries (update (updateMetadataFileCacheOnFrontmatterUpdate f d fm s)) ! a)
           = JRef (length (heap s)) \<and>
         heap (update (updateMetadataFileCacheOnFrontmatterUpdate f d fm s))
           = heap s @ [copyWithoutPosition (heap s) fm] \<and>
         (\<forall>k. getProp (heap (update (updateMetadataFileCacheOnFrontmatterUpdate f d fm s)))
                 (JRef (length (heap s))) k
               = (if k = ''position'' then JUndefined else getProp (heap s) fm k))"
proof -
  let ?s = "updateMetadataFileCacheOnFrontmatterUpdate f d fm s"
  have a: "a \<in> set (cache s)" "a < length (entries s)" "filePath (entries s ! a) = f"
    using entry by (rule getCacheForFile_SomeD)+
  note eq = external_applied [OF entry old, of d fm]
  have wf': "wellFormed ?s" using wf by (rule wellFormed_external)
  have in': "a \<in> set (cache ?s)" using a(1) by (simp add: eq)
  have zero: "cyclesSinceLastUpdate (entries ?s ! a) = 0"
    and dirty: "changed (entries ?s ! a)"
    and path: "filePath (entries ?s ! a) = f"
    and data: "metadata (entries ?s ! a) = JRef (length (heap s))"
    using a(2,3) by (simp_all add: eq)
  have heap': "heap ?s = heap s @ [copyWithoutPosition (heap s) fm]"
    by (simp add: eq)
  have entry': "getCacheForFile ?s f = Some a"
  proof -
    have "getCacheForFile ?s f = getCacheForFile s f"
      by (rule getCacheForFile_cong) (simp_all add: eq filePath_list_update)
    then show ?thesis using entry by simp
  qed
  have "writeOf ?s a \<in> set (map (writeOf ?s) (filter (\<lambda>x. changed (entries ?s ! x)) (cache ?s)))"
    using in' dirty by simp
  then have written: "(f, metadata (entries ?s ! a))
      \<in> set (drop (length (writes ?s)) (writes (update ?s)))"
    using path by (simp add: update_writes [OF wf'] writeOf_def)
  have dropped: "\<forall>k<5. updateMetadataFileCacheOnFrontmatterUpdate f d' fm' ((update ^^ k) ?s)
      = (update ^^ k) ?s"
  proof (intro allI impI)
    fix k :: nat
    assume k: "k < 5"
    show "updateMetadataFileCacheOnFrontmatterUpdate f d' fm' ((update ^^ k) ?s)
        = (update ^^ k) ?s"
    proof (rule external_discarded)
      show "getCacheForFile ((update ^^ k) ?s) f = Some a"
        using wf' entry' by (simp add: ticks_getCacheForFile)
      show "cyclesSinceLastUpdate (entries ((update ^^ k) ?s) ! a) < 5"
        using wf' in' zero k by (simp add: ticks_cycles)
    qed
  qed
  have kept: "metadata (entries (update ?s) ! a) = JRef (length (heap s))"
    using data by (simp add: update_entry [OF wf' in'] ticked_def)
  have heap'': "heap (update ?s) = heap s @ [copyWithoutPosition (heap s) fm]"
    by (simp add: update_frame heap')
  have content: "\<forall>k. getProp (heap (update ?s)) (JRef (length (heap s))) k
      = (if k = ''position'' then JUndefined else getProp (heap s) fm k)"
    using getProp_copyWithoutPosition [of "heap s" fm "[]"] by (simp add: heap'')
  show ?thesis
    using zero dirty written dropped data kept heap'' content by blast
qed

theorem accepted_change_resets_and_dirties_witness:
  "wellFormed run6 \<and> getCacheForFile run6 ''F'' = Some 0 \<and>
   5 \<le> cyclesSinceLastUpdate (entries run6 ! 0) \<and>
   traverseObjectByPath [''a'', ''b''] (heap run6) (JRef 2) = JNum 9 \<and>
   traverseObjectByPath [''a'', ''b''] (heap run6) (metadata (entries run6 ! 0)) = JNum 2 \<and>
   cyclesSinceLastUpdate (entries run7 ! 0) = 0 \<and> changed (entries run7 ! 0) \<and>
   (''F'', JRef 5) \<in> set (drop (length (writes run7)) (writes (update run7))) \<and>
   metadata (entries (update run7) ! 0) = JRef 5 \<and>
   heap (update run7) ! 5 = [(''a'', JRef 3)] \<and>
   traverseObjectByPath [''a'', ''b''] (heap (update run7)) (JRef 5) = JNum 9 \<and>
   updateMetadataFileCacheOnFrontmatterUpdate ''F'' [] (JRef 2) ((update ^^ 4) run7)
     = (update ^^ 4) run7"
proof -
  have w: "wellFormed run6" by (simp add: run6_eq wellFormed_def)
  have e: "getCacheForFile run6 ''F'' = Some 0"
    by (simp add: run6_eq getCacheForFile_def entryHasFile_def)
  have c: "5 \<le> cyclesSinceLastUpdate (entries run6 ! 0)" by (simp add: run6_eq)
  have h: "heap run6 = [[(''a'', JRef 1)], [(''b'', JNum 2)],
              [(''a'', JRef 3), (''position'', JNum 0)], [(''b'', JNum 9)], []]"
    and m: "metadata (entries run6 ! 0) = JRef 0"
    by (simp_all add: run6_eq)
  have t: "traverseObjectByPath [''a'', ''b''] (heap run6) (JRef 2) = JNum 9"
    "traverseObjectByPath [''a'', ''b''] (heap run6) (metadata (entries run6 ! 0)) = JNum 2"
    by (simp_all add: h m getProp_def)
  have hl: "length (heap run6) = 5" by (simp add: h)
  note T = accepted_change_resets_and_dirties [OF w e c, of "[]" "JRef 2" "[]" "JRef 2", folded run7_def]
  note zero = T [THEN conjunct1]
  note dirty = T [THEN conjunct2, THEN conjunct1]
  note written = T [THEN conjunct2, THEN conjunct2, THEN conjunct1]
  note dropped = T [THEN conjunct2, THEN conjunct2, THEN conjunct2, THEN conjunct1]
  note data = T [THEN conjunct2, THEN conjunct2, THEN conjunct2, THEN conjunct2, THEN conjunct1]
  note kept = T [THEN conjunct2, THEN conjunct2, THEN conjunct2, THEN conjunct2,
      THEN conjunct2, THEN conjunct1]
  note heap' = T [THEN conjunct2, THEN conjunct2, THEN conjunct2, THEN conjunct2,
      THEN conjunct2, THEN conjunct2, THEN conjunct1]
  have p: "(''F'', JRef 5) \<in> set (drop (length (writes run7)) (writes (update run7)))"
    using written by (simp add: data hl)
  have q: "metadata (entries (update run7) ! 0) = JRef 5"
    by (simp add: kept hl)
  have x: "heap (update run7) = [[(''a'', JRef 1)], [(''b'', JNum 2)],
              [(''a'', JRef 3), (''position'', JNum 0)], [(''b'', JNum 9)], [], [(''a'', JRef 3)]]"
    by (simp add: heap' h copyWithoutPosition_def AList.delete_eq)
  have y: "heap (update run7) ! 5 = [(''a'', JRef 3)]"
    "traverseObjectByPath [''a'', ''b''] (heap (update run7)) (JRef 5) = JNum 9"
    by (simp_all add: x getProp_def)
  have z: "updateMetadataFileCacheOnFrontmatterUpdate ''F'' [] (JRef 2) ((update ^^ 4) run7)
     = (update ^^ 4) run7"
    using dropped by simp
  show ?thesis
    using w e c t zero dirty p q y z by simp
qed

text \<open>
  C10. For a file without an entry in the table, \<open>updatePropertyInMetadataFileCache\<close>
  throws nothing and \<open>unregister\<close> returns; both leave the whole state as it was: no
  entry is created and no listener is called.
\<close>

theorem no_entry_is_silent:
  assumes "getCacheForFile s f = None"
  shows "updatePropertyInMetadataFileCache v p f u s = (None, s) \<and> unregister f u' s = s"
  using assms by (simp add: updateProperty_no_entry unregister_no_entry)

theorem no_entry_is_silent_witness:
  "getCacheForFile run4 ''G'' = None \<and>
   updatePropertyInMetadataFileCache (JNum 7) [''x'', ''y''] ''G'' (Some ''L1'') run4 = (None, run4) \<and>
   unregister ''G'' ''L1'' run4 = run4"
proof -
  have e: "getCacheForFile run4 ''G'' = None"
    by (simp add: run4_eq getCacheForFile_def entryHasFile_def)
  show ?thesis
    using e no_entry_is_silent [OF e, of "JNum 7" "[''x'', ''y'']" "Some ''L1''" "''L1''"] by simp
qed

end
